theory Spec2Isabelle
  imports Complex_Main
begin
section \<open>Numbers\<close>

text \<open>
  The values of the script's number type that the rotation code can meet: NaN, the two
  infinities, negative zero, and the finite numbers (\<open>Num 0\<close> is positive zero).
  A finite number is a real; the doubles are the reals that \<open>roundDouble\<close> below returns.
  Parsed numbers and the sums and products of the parallax code are rounded to doubles.
  The angle of the rotation code is computed over the reals without rounding, as said
  at \<open>rotationOfValues\<close>.
\<close>

datatype number = NaN | PosInf | NegInf | NegZero | Num real

definition isNaN :: "number \<Rightarrow> bool" where
  "isNaN n = (n = NaN)"

text \<open>\<open>Math.atan2(y, x)\<close>, case by case as the language standard lists them.\<close>

definition positiveOrPlusZero :: "number \<Rightarrow> bool" where
  "positiveOrPlusZero x = (case x of PosInf \<Rightarrow> True | Num r \<Rightarrow> 0 \<le> r | _ \<Rightarrow> False)"

definition atan2_finite :: "real \<Rightarrow> number \<Rightarrow> number" where
  "atan2_finite y x =
     (if 0 < y then
        (case x of
           NaN \<Rightarrow> NaN
         | PosInf \<Rightarrow> Num 0
         | NegInf \<Rightarrow> Num pi
         | NegZero \<Rightarrow> Num (pi / 2)
         | Num r \<Rightarrow>
             if r = 0 then Num (pi / 2)
             else if 0 < r then Num (arctan (y / r))
             else Num (arctan (y / r) + pi))
      else
        (case x of
           NaN \<Rightarrow> NaN
         | PosInf \<Rightarrow> NegZero
         | NegInf \<Rightarrow> Num (- pi)
         | NegZero \<Rightarrow> Num (- (pi / 2))
         | Num r \<Rightarrow>
             if r = 0 then Num (- (pi / 2))
             else if 0 < r then Num (arctan (y / r))
             else Num (arctan (y / r) - pi)))"

definition atan2 :: "number \<Rightarrow> number \<Rightarrow> number" where
  "atan2 y x =
     (if isNaN y \<or> isNaN x then NaN
      else
        (case y of
           NaN \<Rightarrow> NaN
         | PosInf \<Rightarrow>
             (case x of PosInf \<Rightarrow> Num (pi / 4) | NegInf \<Rightarrow> Num (3 * pi / 4)
              | _ \<Rightarrow> Num (pi / 2))
         | NegInf \<Rightarrow>
             (case x of PosInf \<Rightarrow> Num (- (pi / 4)) | NegInf \<Rightarrow> Num (- (3 * pi / 4))
              | _ \<Rightarrow> Num (- (pi / 2)))
         | NegZero \<Rightarrow> (if positiveOrPlusZero x then NegZero else Num (- pi))
         | Num r \<Rightarrow>
             if r = 0 then (if positiveOrPlusZero x then Num 0 else Num pi)
             else atan2_finite r x))"

text \<open>The product \<open>n * (180 / Math.PI)\<close>: the right factor is finite and positive.\<close>

definition timesDegrees :: "number \<Rightarrow> number" where
  "timesDegrees n = (case n of Num r \<Rightarrow> Num (r * (180 / pi)) | _ \<Rightarrow> n)"

text \<open>
  \<open>Math.round\<close>: the nearest integer, a tie going towards plus infinity; a negative
  argument no smaller than \<open>-0.5\<close> gives negative zero.
\<close>

definition Math_round :: "number \<Rightarrow> number" where
  "Math_round n =
     (case n of
        Num r \<Rightarrow> if r < 0 \<and> - (1 / 2) \<le> r then NegZero else Num (of_int \<lfloor>r + 1 / 2\<rfloor>)
      | _ \<Rightarrow> n)"

subsection \<open>Double arithmetic\<close>

text \<open>
  The operators \<open>+\<close>, \<open>*\<close> and unary \<open>-\<close> of the script work on double-precision
  numbers: the exact result is rounded to the nearest double, a tie going to the even
  significand. A double is \<open>m * 2 ^ (e - 52)\<close> with \<open>\<bar>m\<bar> < 2 ^ 53\<close> and
  \<open>-1022 \<le> e \<le> 1023\<close>; a result of magnitude \<open>2 ^ 1024\<close> or more is an infinity, and
  a result that rounds to zero keeps its sign.
\<close>

definition pow2 :: "int \<Rightarrow> real" where
  "pow2 e = (if 0 \<le> e then 2 ^ nat e else 1 / 2 ^ nat (- e))"

definition roundHalfEven :: "real \<Rightarrow> int" where
  "roundHalfEven q =
     (let f = \<lfloor>q\<rfloor> in
      if q - of_int f < 1 / 2 then f
      else if 1 / 2 < q - of_int f then f + 1
      else if even f then f else f + 1)"

definition roundDouble :: "real \<Rightarrow> number" where
  "roundDouble x =
     (if x = 0 then Num 0
      else
        (let e = max \<lfloor>log 2 \<bar>x\<bar>\<rfloor> (- 1022);
             ulp = pow2 (e - 52);
             r = of_int (roundHalfEven (x / ulp)) * ulp
         in if pow2 1024 \<le> \<bar>r\<bar> then (if x < 0 then NegInf else PosInf)
            else if r = 0 then (if x < 0 then NegZero else Num 0)
            else Num r))"

definition isNegative :: "number \<Rightarrow> bool" where
  "isNegative n = (case n of NegInf \<Rightarrow> True | NegZero \<Rightarrow> True | Num r \<Rightarrow> r < 0 | _ \<Rightarrow> False)"

definition isInfinite :: "number \<Rightarrow> bool" where
  "isInfinite n = (n = PosInf \<or> n = NegInf)"

text \<open>The real value of a finite number; it is not used on NaN and the infinities.\<close>

definition finiteValue :: "number \<Rightarrow> real" where
  "finiteValue n = (case n of Num r \<Rightarrow> r | _ \<Rightarrow> 0)"

definition js_negate :: "number \<Rightarrow> number" where
  "js_negate n =
     (case n of
        NaN \<Rightarrow> NaN
      | PosInf \<Rightarrow> NegInf
      | NegInf \<Rightarrow> PosInf
      | NegZero \<Rightarrow> Num 0
      | Num r \<Rightarrow> if r = 0 then NegZero else Num (- r))"

definition js_times :: "number \<Rightarrow> number \<Rightarrow> number" where
  "js_times x y =
     (if isNaN x \<or> isNaN y then NaN
      else if isInfinite x \<or> isInfinite y then
        (if finiteValue x = 0 \<and> \<not> isInfinite x \<or> finiteValue y = 0 \<and> \<not> isInfinite y then NaN
         else if isNegative x = isNegative y then PosInf else NegInf)
      else if finiteValue x * finiteValue y = 0 then
        (if isNegative x = isNegative y then Num 0 else NegZero)
      else roundDouble (finiteValue x * finiteValue y))"

definition js_plus :: "number \<Rightarrow> number \<Rightarrow> number" where
  "js_plus x y =
     (if isNaN x \<or> isNaN y then NaN
      else if isInfinite x then (if isInfinite y \<and> x \<noteq> y then NaN else x)
      else if isInfinite y then y
      else if x = NegZero \<and> y = NegZero then NegZero
      else roundDouble (finiteValue x + finiteValue y))"

text \<open>A number that is negative zero or a finite number of magnitude at most \<open>c\<close>.\<close>

definition angleBounded :: "number \<Rightarrow> real \<Rightarrow> bool" where
  "angleBounded n c = (case n of NegZero \<Rightarrow> True | Num r \<Rightarrow> - c \<le> r \<and> r \<le> c | _ \<Rightarrow> False)"

section \<open>Strings\<close>

text \<open>\<open>s.split(c)\<close> for a one-character separator: the pieces between the separators.\<close>

fun split_string :: "char \<Rightarrow> string \<Rightarrow> string list" where
  "split_string c [] = [[]]"
| "split_string c (x # xs) =
     (if x = c then [] # split_string c xs
      else (case split_string c xs of [] \<Rightarrow> [[x]] | w # ws \<Rightarrow> (x # w) # ws))"

text \<open>
  \<open>parseFloat\<close>: leading white space is dropped, then the longest prefix that reads as a
  signed decimal literal (or \<open>Infinity\<close>) gives the value; no such prefix gives NaN.
  The value is the double nearest to the decimal, so a huge literal gives an infinity
  and a tiny one a zero with the sign of the literal. Strings are sequences of
  characters with codes below 256; the white space among them is the ASCII one and
  the no-break space.
\<close>

definition isWhiteSpace :: "char \<Rightarrow> bool" where
  "isWhiteSpace c = (c \<in> {CHR '' '', CHR 0x09, CHR 0x0A, CHR 0x0B, CHR 0x0C, CHR 0x0D, CHR 0xA0})"

definition isDigit :: "char \<Rightarrow> bool" where
  "isDigit c = (c \<in> set ''0123456789'')"

definition digitValue :: "char \<Rightarrow> nat" where
  "digitValue c = of_char c - 48"

definition digitsValue :: "string \<Rightarrow> nat" where
  "digitsValue ds = foldl (\<lambda>n c. 10 * n + digitValue c) 0 ds"

definition pow10 :: "int \<Rightarrow> real" where
  "pow10 e = (if 0 \<le> e then 10 ^ nat e else 1 / 10 ^ nat (- e))"

definition exponentPart :: "string \<Rightarrow> int" where
  "exponentPart s =
     (case s of
        [] \<Rightarrow> 0
      | c # r \<Rightarrow>
          if c = CHR ''e'' \<or> c = CHR ''E'' then
            (case r of
               [] \<Rightarrow> 0
             | g # r' \<Rightarrow>
                 if g = CHR ''+'' \<or> g = CHR ''-'' then
                   (let ds = takeWhile isDigit r' in
                    if ds = [] then 0
                    else if g = CHR ''-'' then - int (digitsValue ds)
                    else int (digitsValue ds))
                 else
                   (let ds = takeWhile isDigit r in
                    if ds = [] then 0 else int (digitsValue ds)))
          else 0)"

datatype literal = NoLiteral | InfinityLiteral | DecimalLiteral real

definition unsignedLiteral :: "string \<Rightarrow> literal" where
  "unsignedLiteral s =
     (if take 8 s = ''Infinity'' then InfinityLiteral
      else
        (let ip = takeWhile isDigit s; r1 = dropWhile isDigit s in
         case r1 of
           [] \<Rightarrow> if ip = [] then NoLiteral else DecimalLiteral (real (digitsValue ip))
         | c # r2 \<Rightarrow>
             if c = CHR ''.'' then
               (let fp = takeWhile isDigit r2; r3 = dropWhile isDigit r2 in
                if ip = [] \<and> fp = [] then NoLiteral
                else DecimalLiteral
                  (real (digitsValue (ip @ fp)) * pow10 (exponentPart r3 - int (length fp))))
             else if ip = [] then NoLiteral
             else DecimalLiteral (real (digitsValue ip) * pow10 (exponentPart r1))))"

definition parseFloat :: "string \<Rightarrow> number" where
  "parseFloat s =
     (let t = dropWhile isWhiteSpace s in
      case t of
        [] \<Rightarrow> NaN
      | c # r \<Rightarrow>
          if c = CHR ''-'' then
            (case unsignedLiteral r of
               NoLiteral \<Rightarrow> NaN
             | InfinityLiteral \<Rightarrow> NegInf
             | DecimalLiteral v \<Rightarrow> if v = 0 then NegZero else roundDouble (- v))
          else
            (case unsignedLiteral (if c = CHR ''+'' then r else t) of
               NoLiteral \<Rightarrow> NaN
             | InfinityLiteral \<Rightarrow> PosInf
             | DecimalLiteral v \<Rightarrow> roundDouble v))"

section \<open>Rotation extraction\<close>

datatype exn = TypeError

datatype console_entry = Warn string string

text \<open>
  The first statement of the guarded block of \<open>getRotationFromMatrix\<close>:
  \<open>matrix.split('(')[1].split(')')[0].split(',')\<close>. An index past the end of an array
  reads \<open>undefined\<close>, and calling \<open>split\<close> on it throws.
\<close>

definition matrixValues :: "string \<Rightarrow> exn + string list" where
  "matrixValues matrix =
     (case split_string CHR ''('' matrix of
        _ # inner # _ \<Rightarrow>
          (case split_string CHR '')'' inner of
             [] \<Rightarrow> Inl TypeError
           | v # _ \<Rightarrow> Inr (split_string CHR '','' v))
      | _ \<Rightarrow> Inl TypeError)"

text \<open>
  The rest of the guarded block, from line 110 on; nothing in it throws. The angle is
  computed with the exact \<open>atan2\<close> and the exact product: the language standard leaves
  the last digits of \<open>Math.atan2\<close> to the implementation.
\<close>

definition rotationOfValues :: "string list \<Rightarrow> number" where
  "rotationOfValues values =
     (if length values < 2 then Num 0
      else
        (let a = parseFloat (values ! 0); b = parseFloat (values ! 1) in
         if isNaN a \<or> isNaN b then Num 0
         else Math_round (timesDegrees (atan2 b a))))"

text \<open>
  \<open>getRotationFromMatrix\<close>: the value returned and the lines written to the console.
  The handler of the guarded block warns and returns 0.
\<close>

definition getRotationFromMatrix :: "string \<Rightarrow> number \<times> console_entry list" where
  "getRotationFromMatrix matrix =
     (if matrix = ''none'' \<or> matrix = [] then (Num 0, [])
      else
        (case matrixValues matrix of
           Inl e \<Rightarrow> (Num 0, [Warn ''Failed to parse transform matrix:'' matrix])
         | Inr values \<Rightarrow> (rotationOfValues values, [])))"

section \<open>The page\<close>

text \<open>
  An element of the page, with the parts of it the script reads or writes. Elements are
  named by their position in document order, so a parent stands before its children.
  \<open>transform\<close> is the inline style the script writes, \<open>computedTransform\<close> the value
  \<open>getComputedStyle\<close> reports: the browser derives it, the script only reads it.
\<close>

datatype css_transform = TransformText string | TranslateYRotate number number

record element =
  parentElement :: "nat option"
  attributes :: "(string \<times> string) list"
  classList :: "string list"
  transitionDelay :: string
  transform :: css_transform
  computedTransform :: string

datatype selector = HasAttribute string | HasClass string

definition getAttribute :: "element \<Rightarrow> string \<Rightarrow> string option" where
  "getAttribute e name = map_of (attributes e) name"

definition matches :: "selector \<Rightarrow> element \<Rightarrow> bool" where
  "matches sel e =
     (case sel of
        HasAttribute a \<Rightarrow> getAttribute e a \<noteq> None
      | HasClass c \<Rightarrow> c \<in> set (classList e))"

text \<open>\<open>document.querySelectorAll\<close>: the matching elements, in document order.\<close>

definition querySelectorAll :: "element list \<Rightarrow> selector \<Rightarrow> nat list" where
  "querySelectorAll d sel = filter (\<lambda>i. matches sel (d ! i)) [0..<length d]"

text \<open>
  \<open>element.closest(selector)\<close>: the element itself or its nearest ancestor that matches.
  A parent reference that does not point backwards ends the walk; none exists in a tree.
\<close>

function closest :: "element list \<Rightarrow> selector \<Rightarrow> nat \<Rightarrow> nat option" where
  "closest d sel i =
     (if i < length d then
        (if matches sel (d ! i) then Some i
         else
           (case parentElement (d ! i) of
              None \<Rightarrow> None
            | Some p \<Rightarrow> if p < i then closest d sel p else None))
      else None)"
  by pat_completeness auto
termination
  by (relation "measure (\<lambda>(d, sel, i). i)") auto

declare closest.simps [simp del]

definition classList_add :: "string \<Rightarrow> element \<Rightarrow> element" where
  "classList_add c e =
     e\<lparr>classList := (if c \<in> set (classList e) then classList e else classList e @ [c])\<rparr>"

definition classList_remove :: "string \<Rightarrow> element \<Rightarrow> element" where
  "classList_remove c e = e\<lparr>classList := removeAll c (classList e)\<rparr>"

text \<open>
  What the script sees of the browser: the elements, the scroll offset, the scroll
  listeners it has installed (each with the \<open>ticking\<close> variable of its closure), the
  callbacks waiting for the next animation frame (each named by its listener), and the
  console. \<open>calls\<close> is what the browser sees of the script, oldest first: every
  assignment to \<open>style.transitionDelay\<close> and every call of \<open>observe\<close> and \<open>unobserve\<close>.
\<close>

datatype call = SetTransitionDelay nat string | Observe nat | Unobserve nat

record page =
  document :: "element list"
  pageYOffset :: number
  scrollListeners :: "bool list"
  animationFrameRequests :: "nat list"
  console :: "console_entry list"
  calls :: "call list"

section \<open>The animator\<close>

record animator_options =
  threshold :: real
  once :: bool
  offset :: real

record given_options =
  givenThreshold :: "real option"
  givenOnce :: "bool option"
  givenOffset :: "real option"

record observer =
  observerThreshold :: real
  rootMargin :: real
  observed :: "nat list"

record entry =
  target :: nat
  isIntersecting :: bool
  intersectionRatio :: real

text \<open>A constructed \<open>ScrollAnimator\<close> together with the page it works on.\<close>

record animator =
  options :: animator_options
  elements :: "nat list"
  observer :: observer
  page :: page

definition mergeOptions :: "given_options \<Rightarrow> animator_options" where
  "mergeOptions g =
     \<lparr>threshold = (case givenThreshold g of None \<Rightarrow> 0.2 | Some t \<Rightarrow> t),
      once = (case givenOnce g of None \<Rightarrow> False | Some b \<Rightarrow> b),
      offset = (case givenOffset g of None \<Rightarrow> 0 | Some x \<Rightarrow> x)\<rparr>"

definition newObserver :: "animator_options \<Rightarrow> observer" where
  "newObserver opts =
     \<lparr>observerThreshold = threshold opts, rootMargin = offset opts, observed = []\<rparr>"

definition observe :: "nat \<Rightarrow> observer \<Rightarrow> observer" where
  "observe x ob = ob\<lparr>observed := (if x \<in> set (observed ob) then observed ob else observed ob @ [x])\<rparr>"

definition unobserve :: "nat \<Rightarrow> observer \<Rightarrow> observer" where
  "unobserve x ob = ob\<lparr>observed := removeAll x (observed ob)\<rparr>"

subsection \<open>The calls into the browser\<close>

definition updateDocument :: "(element list \<Rightarrow> element list) \<Rightarrow> animator \<Rightarrow> animator" where
  "updateDocument f s = s\<lparr>page := (page s)\<lparr>document := f (document (page s))\<rparr>\<rparr>"

definition logCall :: "call \<Rightarrow> animator \<Rightarrow> animator" where
  "logCall c s = s\<lparr>page := (page s)\<lparr>calls := calls (page s) @ [c]\<rparr>\<rparr>"

text \<open>
  \<open>element.style.transitionDelay = v\<close>. The text assigned is kept as it is; that the
  browser drops a text that is no time value is not represented.
\<close>

definition setTransitionDelay :: "nat \<Rightarrow> string \<Rightarrow> animator \<Rightarrow> animator" where
  "setTransitionDelay x v s =
     logCall (SetTransitionDelay x v)
       (updateDocument (\<lambda>d. d[x := (d ! x)\<lparr>transitionDelay := v\<rparr>]) s)"

text \<open>\<open>this.observer.observe(x)\<close> and \<open>this.observer.unobserve(x)\<close>.\<close>

definition observeTarget :: "nat \<Rightarrow> animator \<Rightarrow> animator" where
  "observeTarget x s = logCall (Observe x) (s\<lparr>observer := observe x (observer s)\<rparr>)"

definition unobserveTarget :: "nat \<Rightarrow> animator \<Rightarrow> animator" where
  "unobserveTarget x s = logCall (Unobserve x) (s\<lparr>observer := unobserve x (observer s)\<rparr>)"

subsection \<open>init\<close>

text \<open>
  The body of the loop of \<open>init\<close>, lines 38 to 43: the delay attribute, when it is a
  non-empty string, becomes the transition delay; then the element is observed.
\<close>

definition observeElement :: "nat \<Rightarrow> animator \<Rightarrow> animator" where
  "observeElement x s =
     (let s1 =
        (case getAttribute (document (page s) ! x) ''data-scroll-delay'' of
           None \<Rightarrow> s
         | Some delay \<Rightarrow> if delay \<noteq> [] then setTransitionDelay x (delay @ ''ms'') s else s)
      in observeTarget x s1)"

text \<open>\<open>addParallaxEffect\<close> installs one more scroll listener, its \<open>ticking\<close> false.\<close>

definition addParallaxEffect :: "page \<Rightarrow> page" where
  "addParallaxEffect p = p\<lparr>scrollListeners := scrollListeners p @ [False]\<rparr>"

text \<open>
  \<open>init\<close> reads the options and the page and assigns \<open>elements\<close> and \<open>observer\<close>
  anew, so it is given the two it reads and returns the whole animator.
\<close>

definition init :: "animator_options \<Rightarrow> page \<Rightarrow> animator" where
  "init opts p =
     (let els = querySelectorAll (document p) (HasAttribute ''data-scroll'');
          s0 = \<lparr>options = opts, elements = els, observer = newObserver opts, page = p\<rparr>;
          s1 = fold observeElement els s0
      in s1\<lparr>page := addParallaxEffect (page s1)\<rparr>)"

definition construct :: "given_options \<Rightarrow> page \<Rightarrow> animator" where
  "construct g p = init (mergeOptions g) p"

definition refresh :: "animator \<Rightarrow> animator" where
  "refresh s =
     (let s1 = fold unobserveTarget (elements s) s
      in init (options s1) (page s1))"

subsection \<open>handleIntersection\<close>

definition handleEntry :: "entry \<Rightarrow> animator \<Rightarrow> animator" where
  "handleEntry e s =
     (if isIntersecting e then
        (let s1 = updateDocument (\<lambda>d. d[target e := classList_add ''animated'' (d ! target e)]) s
         in if once (options s1) then unobserveTarget (target e) s1 else s1)
      else
        (if \<not> once (options s) then
           updateDocument (\<lambda>d. d[target e := classList_remove ''animated'' (d ! target e)]) s
         else s))"

definition handleIntersection :: "animator \<Rightarrow> entry list \<Rightarrow> animator" where
  "handleIntersection s entries = fold handleEntry entries s"

subsection \<open>updateParallax\<close>

text \<open>The test of line 89.\<close>

definition skipsTriangle :: "element list \<Rightarrow> nat \<Rightarrow> bool" where
  "skipsTriangle d triangle =
     (closest d (HasAttribute ''data-scroll'') triangle \<noteq> None
      \<and> ''animated'' \<notin> set (classList (d ! triangle)))"

text \<open>
  Lines 94 and 95: \<open>speed = 0.3 + (index * 0.1)\<close> and \<open>yPos = -(scrolled * speed)\<close>, in
  the arithmetic of doubles. The literals are the doubles nearest to 3/10 and 1/10; an
  index is a whole number far below \<open>2 ^ 53\<close>, so it is a double as it stands.
\<close>

definition verticalOffset :: "number \<Rightarrow> nat \<Rightarrow> number" where
  "verticalOffset scrolled index =
     (let speed = js_plus (roundDouble (3 / 10)) (js_times (Num (real index)) (roundDouble (1 / 10)));
          yPos = js_negate (js_times scrolled speed)
      in yPos)"

text \<open>
  The body of the loop over the triangles. The inline transform written is the text
  \<open>translateY(<yPos>px) rotate(<rotation>deg)\<close>, kept as its two numbers.
\<close>

definition parallaxStep :: "number \<Rightarrow> nat \<times> nat \<Rightarrow> page \<Rightarrow> page" where
  "parallaxStep scrolled it p =
     (let index = fst it; triangle = snd it; d = document p in
      if skipsTriangle d triangle then p
      else
        (let yPos = verticalOffset scrolled index;
             currentTransform = computedTransform (d ! triangle);
             r = getRotationFromMatrix currentTransform
         in p\<lparr>document := d[triangle := (d ! triangle)\<lparr>transform := TranslateYRotate yPos (fst r)\<rparr>],
              console := console p @ snd r\<rparr>))"

definition updateParallax :: "page \<Rightarrow> page" where
  "updateParallax p =
     (let scrolled = pageYOffset p;
          triangles = querySelectorAll (document p) (HasClass ''triangle'')
      in fold (parallaxStep scrolled) (enumerate 0 triangles) p)"

subsection \<open>The scroll listener and the animation frame\<close>

text \<open>The listener of lines 72 to 80, for the listener numbered \<open>k\<close>.\<close>

definition scrollListener :: "nat \<Rightarrow> page \<Rightarrow> page" where
  "scrollListener k p =
     (if \<not> scrollListeners p ! k then
        p\<lparr>animationFrameRequests := animationFrameRequests p @ [k],
          scrollListeners := (scrollListeners p)[k := True]\<rparr>
      else p)"

text \<open>A scroll event: the offset changes and every installed listener runs.\<close>

definition scrollEvent :: "number \<Rightarrow> page \<Rightarrow> page" where
  "scrollEvent y p = fold scrollListener [0..<length (scrollListeners p)] (p\<lparr>pageYOffset := y\<rparr>)"

text \<open>The callback of lines 74 to 77, for the listener numbered \<open>k\<close>.\<close>

definition frameCallback :: "nat \<Rightarrow> page \<Rightarrow> page" where
  "frameCallback k p =
     (let p1 = updateParallax p in p1\<lparr>scrollListeners := (scrollListeners p1)[k := False]\<rparr>)"

text \<open>A display refresh: the callbacks requested since the last one run, in order.\<close>

definition animationFrame :: "page \<Rightarrow> page" where
  "animationFrame p = fold frameCallback (animationFrameRequests p) (p\<lparr>animationFrameRequests := []\<rparr>)"

datatype event = Scroll number | AnimationFrame

fun step :: "event \<Rightarrow> page \<Rightarrow> page" where
  "step (Scroll y) p = scrollEvent y p"
| "step AnimationFrame p = animationFrame p"

definition run :: "event list \<Rightarrow> page \<Rightarrow> page" where
  "run evs p = fold step evs p"

section \<open>Reading the state\<close>

text \<open>An element is revealed when its class list holds \<open>animated\<close>.\<close>

definition revealed :: "element list \<Rightarrow> nat \<Rightarrow> bool" where
  "revealed d x = (''animated'' \<in> set (classList (d ! x)))"

text \<open>What the assignment of \<open>observeElement\<close> does to the element it is given, and to the
  document.\<close>

definition delayed :: "element \<Rightarrow> element" where
  "delayed e =
     (case getAttribute e ''data-scroll-delay'' of
        None \<Rightarrow> e
      | Some delay \<Rightarrow> if delay \<noteq> [] then e\<lparr>transitionDelay := delay @ ''ms''\<rparr> else e)"

definition applyDelay :: "nat \<Rightarrow> element list \<Rightarrow> element list" where
  "applyDelay x d = d[x := delayed (d ! x)]"

text \<open>The calls of one round of the loop of \<open>init\<close>, in their order.\<close>

definition elementCalls :: "element list \<Rightarrow> nat \<Rightarrow> call list" where
  "elementCalls d x =
     (case getAttribute (d ! x) ''data-scroll-delay'' of
        None \<Rightarrow> []
      | Some delay \<Rightarrow> if delay \<noteq> [] then [SetTransitionDelay x (delay @ ''ms'')] else [])
     @ [Observe x]"

text \<open>What one round of the loop of \<open>updateParallax\<close> leaves in the place of the
  triangle \<open>j\<close>, when \<open>j\<close> is the triangle numbered \<open>k\<close> and the offset is \<open>scrolled\<close>.\<close>

definition parallaxResult :: "number \<Rightarrow> nat \<Rightarrow> element list \<Rightarrow> nat \<Rightarrow> element" where
  "parallaxResult scrolled k d j =
     (if skipsTriangle d j then d ! j
      else (d ! j)\<lparr>transform :=
        TranslateYRotate (verticalOffset scrolled k)
          (fst (getRotationFromMatrix (computedTransform (d ! j))))\<rparr>)"

section \<open>Example pages\<close>

definition plainElement :: element where
  "plainElement =
     \<lparr>parentElement = None, attributes = [], classList = [], transitionDelay = [],
      transform = TransformText [], computedTransform = ''none''\<rparr>"

definition emptyPage :: page where
  "emptyPage =
     \<lparr>document = [], pageYOffset = Num 0, scrollListeners = [], animationFrameRequests = [],
      console = [], calls = []\<rparr>"

definition defaults :: given_options where
  "defaults = \<lparr>givenThreshold = None, givenOnce = None, givenOffset = None\<rparr>"

definition watchedElement :: element where
  "watchedElement = plainElement\<lparr>attributes := [(''data-scroll'', ''fade-up'')]\<rparr>"

text \<open>
  A page of six elements: a triangle that is itself watched and not yet revealed (0), a
  plain triangle (1), a revealed section (2) with a triangle inside it (3), a triangle
  with no watched element around it, turned by a quarter (4), and a watched element
  with a delay (5).
\<close>

definition examplePage :: page where
  "examplePage =
     emptyPage\<lparr>document :=
       [watchedElement\<lparr>classList := [''triangle'']\<rparr>,
        plainElement\<lparr>classList := [''triangle'']\<rparr>,
        watchedElement\<lparr>classList := [''animated'']\<rparr>,
        plainElement\<lparr>parentElement := Some 2, classList := [''triangle'']\<rparr>,
        plainElement\<lparr>classList := [''triangle''],
          computedTransform := ''matrix(0, 1, -1, 0, 0, 0)''\<rparr>,
        watchedElement\<lparr>attributes :=
          [(''data-scroll'', ''fade-up''), (''data-scroll-delay'', ''200'')]\<rparr>],
       pageYOffset := Num 100\<rparr>"

definition singleShot :: given_options where
  "singleShot = defaults\<lparr>givenOnce := Some True\<rparr>"

definition entering :: entry where
  "entering = \<lparr>target = 5, isIntersecting = True, intersectionRatio = 1\<rparr>"

definition leaving :: entry where
  "leaving = \<lparr>target = 5, isIntersecting = False, intersectionRatio = 0\<rparr>"

section \<open>The pending flag of the scroll listener\<close>

text \<open>One listener is installed, and a callback waits exactly when its flag is set.\<close>

definition pendingInvariant :: "page \<Rightarrow> bool" where
  "pendingInvariant p =
     (scrollListeners p = [True] \<and> animationFrameRequests p = [0]
      \<or> scrollListeners p = [False] \<and> animationFrameRequests p = [])"

section \<open>Double arithmetic\<close>

lemma pow2_powr: "pow2 e = 2 powr real_of_int e"
  by (simp add: pow2_def powr_real_of_int inverse_eq_divide)

lemma floor_log2:
  assumes "pow2 e \<le> \<bar>x\<bar>" and "\<bar>x\<bar> < pow2 (e + 1)"
  shows "\<lfloor>log 2 \<bar>x\<bar>\<rfloor> = e"
proof -
  have "0 < pow2 e"
    by (simp add: pow2_powr)
  then have "0 < \<bar>x\<bar>"
    using assms(1) by linarith
  then show ?thesis
    using assms by (subst floor_log_eq_powr_iff) (simp_all add: pow2_powr)
qed

lemma roundDouble_binade:
  assumes "pow2 e \<le> \<bar>x\<bar>" and "\<bar>x\<bar> < pow2 (e + 1)" and "- 1022 \<le> e"
  shows "roundDouble x =
     (let r = of_int (roundHalfEven (x / pow2 (e - 52))) * pow2 (e - 52)
      in if pow2 1024 \<le> \<bar>r\<bar> then (if x < 0 then NegInf else PosInf)
         else if r = 0 then (if x < 0 then NegZero else Num 0)
         else Num r)"
proof -
  have "0 < pow2 e"
    by (simp add: pow2_powr)
  then have "x \<noteq> 0"
    using assms(1) by auto
  moreover have "max \<lfloor>log 2 \<bar>x\<bar>\<rfloor> (- 1022) = e"
    using floor_log2 [OF assms(1,2)] assms(3) by simp
  ultimately show ?thesis
    by (simp add: roundDouble_def Let_def)
qed

lemma roundDouble_not_NaN [simp]: "roundDouble x \<noteq> NaN" "\<not> isNaN (roundDouble x)"
  by (simp_all add: roundDouble_def Let_def isNaN_def)

lemma double_zero [simp]: "roundDouble 0 = Num 0"
  by (simp add: roundDouble_def)

lemma double_one [simp]: "roundDouble 1 = Num 1"
  by (subst roundDouble_binade [where e = 0])
    (simp_all add: pow2_def roundHalfEven_def Let_def)

lemma double_minus_one [simp]: "roundDouble (- 1) = Num (- 1)"
  by (subst roundDouble_binade [where e = 0])
    (simp_all add: pow2_def roundHalfEven_def Let_def)

lemma double_one_tenth: "roundDouble (1 / 10) = Num (3602879701896397 / 2 ^ 55)"
  by (subst roundDouble_binade [where e = "- 4"])
    (simp_all add: pow2_def roundHalfEven_def Let_def)

lemma double_three_tenths: "roundDouble (3 / 10) = Num (5404319552844595 / 2 ^ 54)"
  by (subst roundDouble_binade [where e = "- 2"])
    (simp_all add: pow2_def roundHalfEven_def Let_def)


lemmas js_arith_defs = js_times_def js_plus_def js_negate_def isNaN_def isInfinite_def
  isNegative_def finiteValue_def

lemma double_index_three: "js_times (Num (real 3)) (roundDouble (1 / 10)) = Num (5404319552844596 / 2 ^ 54)"
proof -
  have "roundDouble (3 * (3602879701896397 / 2 ^ 55)) = Num (5404319552844596 / 2 ^ 54)"
    by (subst roundDouble_binade [where e = "- 2"])
      (simp_all add: pow2_def roundHalfEven_def Let_def)
  then show ?thesis
    by (simp add: double_one_tenth js_arith_defs)
qed

lemma double_speed_three:
  "js_plus (roundDouble (3 / 10)) (Num (5404319552844596 / 2 ^ 54)) = Num (5404319552844596 / 2 ^ 53)"
proof -
  have "roundDouble (5404319552844595 / 2 ^ 54 + 5404319552844596 / 2 ^ 54)
      = Num (5404319552844596 / 2 ^ 53)"
    by (subst roundDouble_binade [where e = "- 1"])
      (simp_all add: pow2_def roundHalfEven_def Let_def)
  then show ?thesis
    by (simp add: double_three_tenths js_arith_defs)
qed

lemma double_scrolled_hundred:
  "js_times (Num 100) (Num (5404319552844596 / 2 ^ 53)) = Num (8444249301319681 / 2 ^ 47)"
proof -
  have "roundDouble (100 * (5404319552844596 / 2 ^ 53)) = Num (8444249301319681 / 2 ^ 47)"
    by (subst roundDouble_binade [where e = 5])
      (simp_all add: pow2_def roundHalfEven_def Let_def)
  then show ?thesis
    by (simp add: js_arith_defs)
qed

lemma verticalOffset_example: "verticalOffset (Num 100) 3 = Num (- (8444249301319681 / 2 ^ 47))"
  unfolding verticalOffset_def Let_def double_index_three double_speed_three
    double_scrolled_hundred
  by (simp add: js_negate_def)

lemma verticalOffset_example_inexact:
  "(8444249301319681 / 2 ^ 47 :: real) \<noteq> 100 * (0.3 + 0.1 * real 3)"
  by simp

section \<open>Rotation extraction: the angle\<close>

lemma sin_neg_interval: "- pi < t \<Longrightarrow> t < 0 \<Longrightarrow> sin t < 0"
  using sin_gt_zero [of "- t"] by simp

lemma cos_neg_upper: "pi / 2 < t \<Longrightarrow> t \<le> pi \<Longrightarrow> cos t < 0"
  by (metis cos_pi_half pi_half_ge_zero cos_monotone_0_pi)

lemma cos_neg_lower: "- pi \<le> t \<Longrightarrow> t < - (pi / 2) \<Longrightarrow> cos t < 0"
  using cos_neg_upper [of "- t"] by simp

lemma arctan_tan_mid: "- (pi / 2) < t \<Longrightarrow> t < pi / 2 \<Longrightarrow> arctan (sin t / cos t) = t"
  by (simp add: arctan_unique tan_def)

lemma arctan_tan_upper:
  assumes "pi / 2 < t" "t < 3 * pi / 2"
  shows "arctan (sin t / cos t) = t - pi"
proof -
  have "sin t / cos t = tan (t - pi)"
    by (simp add: tan_def sin_diff cos_diff)
  moreover have "arctan (tan (t - pi)) = t - pi"
    using assms by (intro arctan_tan) auto
  ultimately show ?thesis by simp
qed

lemma arctan_tan_lower:
  assumes "- (3 * pi / 2) < t" "t < - (pi / 2)"
  shows "arctan (sin t / cos t) = t + pi"
proof -
  have "sin t / cos t = tan (t + pi)"
    by (simp add: tan_def sin_add cos_add)
  moreover have "arctan (tan (t + pi)) = t + pi"
    using assms by (intro arctan_tan) auto
  ultimately show ?thesis by simp
qed

lemma atan2_sin_cos:
  assumes "- pi < t" "t \<le> pi"
  shows "atan2 (Num (sin t)) (Num (cos t)) = Num t"
proof -
  consider "t = pi" | "pi / 2 < t" "t < pi" | "t = pi / 2" | "0 < t" "t < pi / 2" | "t = 0"
    | "- (pi / 2) < t" "t < 0" | "t = - (pi / 2)" | "- pi < t" "t < - (pi / 2)"
    using assms by linarith
  then show ?thesis
  proof cases
    case 1
    have "sin t = 0" "cos t = - 1" "Num pi = Num t"
      unfolding 1 by simp_all
    then show ?thesis by (simp add: atan2_def isNaN_def positiveOrPlusZero_def)
  next
    case 2
    then have "0 < sin t" "cos t < 0"
      by (simp_all add: sin_gt_zero cos_neg_upper)
    moreover have "arctan (sin t / cos t) = t - pi"
      using 2 by (intro arctan_tan_upper) auto
    ultimately show ?thesis
      by (simp add: atan2_def atan2_finite_def isNaN_def)
  next
    case 3
    have "sin t = 1" "cos t = 0" "Num (pi / 2) = Num t"
      unfolding 3 by simp_all
    then show ?thesis by (simp add: atan2_def atan2_finite_def isNaN_def)
  next
    case 4
    then have "0 < sin t" "0 < cos t"
      by (simp_all add: sin_gt_zero cos_gt_zero)
    moreover have "arctan (sin t / cos t) = t"
      using 4 by (intro arctan_tan_mid) auto
    ultimately show ?thesis
      by (simp add: atan2_def atan2_finite_def isNaN_def)
  next
    case 5
    then show ?thesis by (simp add: atan2_def isNaN_def positiveOrPlusZero_def)
  next
    case 6
    then have "sin t < 0" "0 < cos t"
      by (simp_all add: sin_neg_interval cos_gt_zero_pi)
    moreover have "arctan (sin t / cos t) = t"
      using 6 by (intro arctan_tan_mid) auto
    ultimately show ?thesis
      by (simp add: atan2_def atan2_finite_def isNaN_def)
  next
    case 7
    have "sin t = - 1" "cos t = 0" "Num (- (pi / 2)) = Num t"
      unfolding 7 by simp_all
    then show ?thesis by (simp add: atan2_def atan2_finite_def isNaN_def)
  next
    case 8
    then have "sin t < 0" "cos t < 0"
      by (simp_all add: sin_neg_interval cos_neg_lower)
    moreover have "arctan (sin t / cos t) = t + pi"
      using 8 by (intro arctan_tan_lower) auto
    ultimately show ?thesis
      by (simp add: atan2_def atan2_finite_def isNaN_def)
  qed
qed

lemma pi_fractions:
  "- (pi / 4) \<le> pi" "- (3 * pi / 4) \<le> pi" "- (pi / 2) \<le> pi" "- pi \<le> pi / 4"
  "- pi \<le> 3 * pi / 4" "- pi \<le> pi / 2" "pi / 4 \<le> pi" "3 * pi / 4 \<le> pi" "pi / 2 \<le> pi"
  "- pi \<le> pi" "- pi \<le> 0"
  using pi_gt_zero by linarith+

lemma atan2_finite_bounded: "y \<noteq> 0 \<Longrightarrow> x \<noteq> NaN \<Longrightarrow> angleBounded (atan2_finite y x) pi"
proof (cases x)
  case (Num r)
  assume y: "y \<noteq> 0"
  have b: "- (pi / 2) < arctan (y / r)" "arctan (y / r) < pi / 2"
    by (rule arctan_lbound, rule arctan_ubound)
  have neg: "r < 0 \<Longrightarrow> 0 < y \<Longrightarrow> arctan (y / r) < 0"
    by (simp add: arctan_less_zero_iff divide_pos_neg)
  have pos: "r < 0 \<Longrightarrow> y < 0 \<Longrightarrow> 0 < arctan (y / r)"
    by (simp add: zero_less_arctan_iff divide_neg_neg)
  show ?thesis
    using Num y b neg pos pi_gt_zero
    by (auto simp: atan2_finite_def angleBounded_def pi_fractions)
qed (use pi_gt_zero in \<open>auto simp: atan2_finite_def angleBounded_def pi_fractions\<close>)


lemma atan2_bounded:
  assumes "\<not> isNaN y" "\<not> isNaN x"
  shows "angleBounded (atan2 y x) pi"
proof (cases y)
  case (Num r)
  then show ?thesis
    using assms atan2_finite_bounded [of r x] pi_gt_zero
    by (auto simp: atan2_def isNaN_def angleBounded_def pi_fractions positiveOrPlusZero_def)
next
  case PosInf
  then show ?thesis
    by (cases x) (use assms pi_gt_zero in \<open>auto simp: atan2_def isNaN_def angleBounded_def pi_fractions\<close>)
next
  case NegInf
  then show ?thesis
    by (cases x) (use assms pi_gt_zero in \<open>auto simp: atan2_def isNaN_def angleBounded_def pi_fractions\<close>)
next
  case NegZero
  then show ?thesis
    using assms pi_gt_zero by (auto simp: atan2_def isNaN_def angleBounded_def pi_fractions)
next
  case NaN
  then show ?thesis using assms by (simp add: isNaN_def)
qed

lemma timesDegrees_bounded: "angleBounded n pi \<Longrightarrow> angleBounded (timesDegrees n) 180"
proof -
  have "- pi \<le> r \<Longrightarrow> r \<le> pi \<Longrightarrow> - 180 \<le> r * (180 / pi) \<and> r * (180 / pi) \<le> 180" for r
    using pi_gt_zero by (simp add: field_simps)
  then show "angleBounded n pi \<Longrightarrow> angleBounded (timesDegrees n) 180"
    by (auto simp: angleBounded_def timesDegrees_def split: number.splits)
qed

section \<open>Rotation extraction: the claims\<close>

lemmas parse_defs = parseFloat_def unsignedLiteral_def exponentPart_def isDigit_def isWhiteSpace_def
  digitsValue_def digitValue_def pow10_def

lemma Math_round_integer:
  assumes "angleBounded n 180"
  shows "Math_round n = NegZero \<or> (\<exists>k::int. - 180 \<le> k \<and> k \<le> 180 \<and> Math_round n = Num (of_int k))"
proof (cases n)
  case (Num r)
  then have r: "- 180 \<le> r" "r \<le> 180"
    using assms by (simp_all add: angleBounded_def)
  have "- 180 \<le> \<lfloor>r + 1 / 2\<rfloor>" "\<lfloor>r + 1 / 2\<rfloor> \<le> 180"
    using r by linarith+
  then show ?thesis
    using Num by (auto simp: Math_round_def)
qed (use assms in \<open>simp_all add: angleBounded_def Math_round_def\<close>)

lemma rotationOfValues_integer:
  "rotationOfValues values = NegZero
   \<or> (\<exists>k::int. - 180 \<le> k \<and> k \<le> 180 \<and> rotationOfValues values = Num (of_int k))"
proof (cases "length values < 2 \<or> isNaN (parseFloat (values ! 0)) \<or> isNaN (parseFloat (values ! 1))")
  case True
  then have "rotationOfValues values = Num (of_int 0)"
    by (auto simp: rotationOfValues_def Let_def)
  then show ?thesis by (intro disjI2 exI [of _ 0]) simp
next
  case False
  then have "rotationOfValues values
      = Math_round (timesDegrees (atan2 (parseFloat (values ! 1)) (parseFloat (values ! 0))))"
    by (simp add: rotationOfValues_def Let_def)
  moreover have "angleBounded (timesDegrees (atan2 (parseFloat (values ! 1)) (parseFloat (values ! 0)))) 180"
    using False by (intro timesDegrees_bounded atan2_bounded) simp_all
  ultimately show ?thesis
    using Math_round_integer by simp
qed

text \<open>
  Claim C10. Rotation extraction is total: for every string it returns a finite integer
  between -180 and 180 (negative zero counts as the integer zero), never NaN, never a
  fraction, and the exception of the guarded block never reaches the caller: the
  result type has no exception in it.
\<close>

theorem getRotationFromMatrix_integer_in_range:
  "fst (getRotationFromMatrix matrix) = NegZero
   \<or> (\<exists>k::int. - 180 \<le> k \<and> k \<le> 180 \<and> fst (getRotationFromMatrix matrix) = Num (of_int k))"
proof (cases "matrix = ''none'' \<or> matrix = [] \<or> matrixValues matrix = Inl TypeError")
  case True
  then have "fst (getRotationFromMatrix matrix) = Num (of_int 0)"
    by (auto simp: getRotationFromMatrix_def)
  then show ?thesis by (intro disjI2 exI [of _ 0]) simp
next
  case False
  then obtain vs where "matrixValues matrix = Inr vs"
    by (cases "matrixValues matrix") (auto, metis exn.exhaust)
  with False have "fst (getRotationFromMatrix matrix) = rotationOfValues vs"
    by (simp add: getRotationFromMatrix_def)
  then show ?thesis
    using rotationOfValues_integer [of vs] by simp
qed

text \<open>Claim C10 at the matrix of a quarter turn.\<close>

theorem getRotationFromMatrix_integer_in_range_witness:
  "fst (getRotationFromMatrix ''matrix(0, 1, -1, 0, 0, 0)'') = NegZero
   \<or> (\<exists>k::int. - 180 \<le> k \<and> k \<le> 180
        \<and> fst (getRotationFromMatrix ''matrix(0, 1, -1, 0, 0, 0)'') = Num (of_int k))"
  using getRotationFromMatrix_integer_in_range [of "''matrix(0, 1, -1, 0, 0, 0)''"] .

text \<open>
  Claim C4. Rotation extraction returns 0 for \<open>none\<close>, the empty string, \<open>matrix()\<close> and
  \<open>matrix(abc, def)\<close>. For every string on which parsing fails (the \<open>none\<close> sentinel or
  the empty string, a thrown error, fewer than two components, a component that is not a
  number) it returns 0; and on the path of the caught error it writes one warning.
\<close>

theorem getRotationFromMatrix_failure_is_zero:
  "getRotationFromMatrix ''none'' = (Num 0, [])
   \<and> getRotationFromMatrix [] = (Num 0, [])
   \<and> getRotationFromMatrix ''matrix()'' = (Num 0, [])
   \<and> getRotationFromMatrix ''matrix(abc, def)'' = (Num 0, [])
   \<and> (\<forall>matrix.
         (matrix = ''none'' \<or> matrix = [] \<or> matrixValues matrix = Inl TypeError
          \<or> (\<exists>values. matrixValues matrix = Inr values
                \<and> (length values < 2 \<or> isNaN (parseFloat (values ! 0))
                    \<or> isNaN (parseFloat (values ! 1)))))
         \<longrightarrow> fst (getRotationFromMatrix matrix) = Num 0)
   \<and> (\<forall>matrix.
         matrix \<noteq> ''none'' \<and> matrix \<noteq> [] \<and> matrixValues matrix = Inl TypeError
         \<longrightarrow> snd (getRotationFromMatrix matrix)
             = [Warn ''Failed to parse transform matrix:'' matrix])"
proof (intro conjI allI impI)
  show "getRotationFromMatrix ''none'' = (Num 0, [])"
    by (simp add: getRotationFromMatrix_def)
  show "getRotationFromMatrix [] = (Num 0, [])"
    by (simp add: getRotationFromMatrix_def)
  show "getRotationFromMatrix ''matrix()'' = (Num 0, [])"
    by (simp add: getRotationFromMatrix_def matrixValues_def rotationOfValues_def)
  show "getRotationFromMatrix ''matrix(abc, def)'' = (Num 0, [])"
    by (simp add: getRotationFromMatrix_def matrixValues_def rotationOfValues_def
        parse_defs isNaN_def)
next
  fix matrix
  assume "matrix = ''none'' \<or> matrix = [] \<or> matrixValues matrix = Inl TypeError
    \<or> (\<exists>values. matrixValues matrix = Inr values
          \<and> (length values < 2 \<or> isNaN (parseFloat (values ! 0))
              \<or> isNaN (parseFloat (values ! 1))))"
  then show "fst (getRotationFromMatrix matrix) = Num 0"
    by (auto simp: getRotationFromMatrix_def rotationOfValues_def Let_def)
next
  fix matrix
  assume "matrix \<noteq> ''none'' \<and> matrix \<noteq> [] \<and> matrixValues matrix = Inl TypeError"
  then show "snd (getRotationFromMatrix matrix) = [Warn ''Failed to parse transform matrix:'' matrix]"
    by (simp add: getRotationFromMatrix_def)
qed

text \<open>Claim C4 at a string with one component and at a string with no parenthesis.\<close>

theorem getRotationFromMatrix_failure_is_zero_witness:
  "matrixValues ''rotate(abc'' = Inr [''abc'']
   \<and> fst (getRotationFromMatrix ''rotate(abc'') = Num 0
   \<and> matrixValues ''abc'' = Inl TypeError
   \<and> fst (getRotationFromMatrix ''abc'') = Num 0
   \<and> snd (getRotationFromMatrix ''abc'') = [Warn ''Failed to parse transform matrix:'' ''abc'']"
proof -
  have a: "matrixValues ''rotate(abc'' = Inr [''abc'']"
    by (simp add: matrixValues_def)
  have b: "matrixValues ''abc'' = Inl TypeError"
    by (simp add: matrixValues_def)
  note th = getRotationFromMatrix_failure_is_zero
  have "fst (getRotationFromMatrix ''rotate(abc'') = Num 0"
    using th a by auto
  moreover have "fst (getRotationFromMatrix ''abc'') = Num 0"
    using th b by blast
  moreover have "snd (getRotationFromMatrix ''abc'') = [Warn ''Failed to parse transform matrix:'' ''abc'']"
    using th b by simp
  ultimately show ?thesis using a b by simp
qed

section \<open>Rotation extraction: a matrix near a rotation\<close>

lemma arctan_le_self:
  assumes "0 \<le> x"
  shows "arctan x \<le> x"
proof -
  have "0 - arctan 0 \<le> x - arctan x"
  proof (rule DERIV_nonneg_imp_nondecreasing [OF assms])
    fix y :: real
    have d: "((\<lambda>z. z - arctan z) has_real_derivative 1 - inverse (1 + y\<^sup>2)) (at y)"
      by (auto intro!: derivative_eq_intros)
    have "inverse (1 + y\<^sup>2) \<le> 1"
      by (simp add: inverse_le_1_iff)
    then show "\<exists>z. ((\<lambda>z. z - arctan z) has_real_derivative z) (at y) \<and> 0 \<le> z"
      using d by (intro exI [of _ "1 - inverse (1 + y\<^sup>2)"]) simp
  qed
  then show ?thesis by simp
qed

lemma abs_arctan_le: "\<bar>arctan x\<bar> \<le> \<bar>x\<bar>"
proof (cases "0 \<le> x")
  case True
  then show ?thesis using arctan_le_self [of x] by simp
next
  case False
  then show ?thesis using arctan_le_self [of "- x"] by (simp add: arctan_minus)
qed

lemma polar_of_arctan:
  assumes "0 < u"
  shows "u = sqrt (u\<^sup>2 + v\<^sup>2) * cos (arctan (v / u))"
    and "v = sqrt (u\<^sup>2 + v\<^sup>2) * sin (arctan (v / u))"
    and "0 < sqrt (u\<^sup>2 + v\<^sup>2)"
proof -
  have "0 < u\<^sup>2" "0 \<le> v\<^sup>2"
    using assms by simp_all
  then have p: "0 < u\<^sup>2 + v\<^sup>2"
    by linarith
  have "1 + (v / u)\<^sup>2 = (u\<^sup>2 + v\<^sup>2) / u\<^sup>2"
    using assms by (simp add: field_simps power2_eq_square)
  then have s: "sqrt (1 + (v / u)\<^sup>2) = sqrt (u\<^sup>2 + v\<^sup>2) / u"
    using assms by (simp add: real_sqrt_divide)
  show "0 < sqrt (u\<^sup>2 + v\<^sup>2)"
    using p by simp
  then show "u = sqrt (u\<^sup>2 + v\<^sup>2) * cos (arctan (v / u))"
    using assms by (simp add: cos_arctan s)
  show "v = sqrt (u\<^sup>2 + v\<^sup>2) * sin (arctan (v / u))"
    using assms \<open>0 < sqrt (u\<^sup>2 + v\<^sup>2)\<close> by (simp add: sin_arctan s)
qed


lemma atan2_scale:
  assumes "0 < c"
  shows "atan2 (Num (c * y)) (Num (c * x)) = atan2 (Num y) (Num x)"
proof -
  have "c * y / (c * x) = y / x"
    using assms by simp
  moreover have "0 < c * y \<longleftrightarrow> 0 < y" "c * y = 0 \<longleftrightarrow> y = 0" "0 < c * x \<longleftrightarrow> 0 < x"
    "c * x = 0 \<longleftrightarrow> x = 0" "0 \<le> c * x \<longleftrightarrow> 0 \<le> x"
    using assms by (simp_all add: zero_less_mult_iff zero_le_mult_iff)
  ultimately show ?thesis
    by (simp add: atan2_def atan2_finite_def isNaN_def positiveOrPlusZero_def)
qed

lemma atan2_polar:
  assumes "0 < c" and "- pi < t" and "t \<le> pi"
  shows "atan2 (Num (c * sin t)) (Num (c * cos t)) = Num t"
  using assms by (simp add: atan2_scale atan2_sin_cos)

text \<open>The direction of a point near the unit circle.\<close>

lemma direction_near_unit_circle:
  fixes a b t :: real
  assumes "\<bar>a - cos t\<bar> \<le> 1 / 1000" and "\<bar>b - sin t\<bar> \<le> 1 / 1000"
  shows "\<exists>c d. 0 < c \<and> \<bar>d\<bar> \<le> 1 / 499 \<and> a = c * cos (t + d) \<and> b = c * sin (t + d)"
proof -
  define u where "u = a * cos t + b * sin t"
  define v where "v = b * cos t - a * sin t"
  have one: "cos t * cos t + sin t * sin t = 1"
    using sin_cos_squared_add2 [of t] by (simp add: power2_eq_square)
  have "1 + ((a - cos t) * cos t + (b - sin t) * sin t)
      = a * cos t + b * sin t + (1 - (cos t * cos t + sin t * sin t))"
    by algebra
  then have u_eq: "u = 1 + ((a - cos t) * cos t + (b - sin t) * sin t)"
    using one by (simp add: u_def)
  have v_eq: "v = (b - sin t) * cos t - (a - cos t) * sin t"
    by (simp add: v_def algebra_simps)
  have ac: "\<bar>(a - cos t) * cos t\<bar> \<le> 1 / 1000"
    using assms(1) abs_cos_le_one [of t] mult_mono [of "\<bar>a - cos t\<bar>" "1 / 1000" "\<bar>cos t\<bar>" 1]
    by (simp add: abs_mult)
  have as: "\<bar>(a - cos t) * sin t\<bar> \<le> 1 / 1000"
    using assms(1) abs_sin_le_one [of t] mult_mono [of "\<bar>a - cos t\<bar>" "1 / 1000" "\<bar>sin t\<bar>" 1]
    by (simp add: abs_mult)
  have bc: "\<bar>(b - sin t) * cos t\<bar> \<le> 1 / 1000"
    using assms(2) abs_cos_le_one [of t] mult_mono [of "\<bar>b - sin t\<bar>" "1 / 1000" "\<bar>cos t\<bar>" 1]
    by (simp add: abs_mult)
  have bs: "\<bar>(b - sin t) * sin t\<bar> \<le> 1 / 1000"
    using assms(2) abs_sin_le_one [of t] mult_mono [of "\<bar>b - sin t\<bar>" "1 / 1000" "\<bar>sin t\<bar>" 1]
    by (simp add: abs_mult)
  have u_low: "499 / 500 \<le> u"
    using ac bs unfolding u_eq by linarith
  have v_abs: "\<bar>v\<bar> \<le> 1 / 500"
    using bc as unfolding v_eq by linarith
  have u_pos: "0 < u"
    using u_low by linarith
  define d where "d = arctan (v / u)"
  define c where "c = sqrt (u\<^sup>2 + v\<^sup>2)"
  have "\<bar>v / u\<bar> = \<bar>v\<bar> / u"
    using u_pos by simp
  also have "\<dots> \<le> (1 / 500) / (499 / 500)"
    using v_abs u_low u_pos by (intro frac_le) simp_all
  finally have "\<bar>v / u\<bar> \<le> 1 / 499"
    by simp
  then have d_abs: "\<bar>d\<bar> \<le> 1 / 499"
    using abs_arctan_le [of "v / u"] unfolding d_def by linarith
  have uc: "u = c * cos d" and vs: "v = c * sin d" and c_pos: "0 < c"
    unfolding c_def d_def using polar_of_arctan [OF u_pos, of v] by simp_all
  have "u * cos t - v * sin t = a * (cos t * cos t + sin t * sin t)"
    unfolding u_def v_def by algebra
  then have "a = u * cos t - v * sin t"
    unfolding one by simp
  also have "\<dots> = c * cos d * cos t - c * sin d * sin t"
    using uc vs by simp
  finally have a_eq: "a = c * cos (t + d)"
    by (simp add: cos_add algebra_simps)
  have "u * sin t + v * cos t = b * (cos t * cos t + sin t * sin t)"
    unfolding u_def v_def by algebra
  then have "b = u * sin t + v * cos t"
    unfolding one by simp
  also have "\<dots> = c * cos d * sin t + c * sin d * cos t"
    using uc vs by simp
  finally have b_eq: "b = c * sin (t + d)"
    by (simp add: sin_add algebra_simps)
  show ?thesis
    using c_pos d_abs a_eq b_eq by blast
qed


lemma Math_round_near:
  "(Math_round (Num x) = NegZero \<and> \<bar>0 - x\<bar> \<le> 1 / 2)
   \<or> (\<exists>k::int. Math_round (Num x) = Num (of_int k) \<and> \<bar>of_int k - x\<bar> \<le> 1 / 2)"
proof (cases "x < 0 \<and> - (1 / 2) \<le> x")
  case True
  then show ?thesis by (simp add: Math_round_def)
next
  case False
  have "\<bar>of_int \<lfloor>x + 1 / 2\<rfloor> - x\<bar> \<le> 1 / 2"
    by linarith
  then show ?thesis
    using False by (auto simp: Math_round_def)
qed

lemma pi_ge_three: "3 \<le> pi"
proof -
  have "sin (pi / 6) \<le> pi / 6"
    by (rule sin_x_le_x) simp
  then show ?thesis
    by (simp add: sin_30)
qed

text \<open>
  An angle within an eighth of a degree of \<open>\<theta>\<close>, computed with an error of up to a
  sixteenth of a degree, rounds to a whole number within 11/16 of \<open>\<theta>\<close>.
\<close>

lemma Math_round_margin:
  assumes "\<bar>x - \<theta>\<bar> \<le> 1 / 8" and "\<bar>r - x\<bar> \<le> 1 / 16"
  shows "\<exists>k::int. (Math_round (Num r) = Num (of_int k) \<or> k = 0 \<and> Math_round (Num r) = NegZero)
           \<and> \<bar>of_int k - \<theta>\<bar> \<le> 11 / 16"
proof -
  obtain k :: int where "Math_round (Num r) = Num (of_int k) \<or> k = 0 \<and> Math_round (Num r) = NegZero"
    and "\<bar>of_int k - r\<bar> \<le> 1 / 2"
    using Math_round_near [of r] by auto
  moreover from this assms have "\<bar>of_int k - \<theta>\<bar> \<le> 11 / 16"
    by linarith
  ultimately show ?thesis
    by blast
qed

lemma degrees_of_small_angle:
  fixes d :: real
  assumes "\<bar>d\<bar> \<le> 1 / 499"
  shows "\<bar>d * (180 / pi)\<bar> \<le> 1 / 8"
proof -
  have "180 / pi \<le> 60"
    using pi_ge_three pi_gt_zero by (simp add: field_simps)
  moreover have "0 \<le> 180 / pi"
    using pi_gt_zero by simp
  ultimately have "\<bar>d\<bar> * (180 / pi) \<le> 1 / 499 * 60"
    using assms by (intro mult_mono) simp_all
  moreover have "(1 / 499 * 60 :: real) \<le> 1 / 8"
    by simp
  ultimately have "\<bar>d\<bar> * (180 / pi) \<le> 1 / 8"
    by (rule order_trans)
  moreover have "\<bar>d * (180 / pi)\<bar> = \<bar>d\<bar> * (180 / pi)"
    using pi_gt_zero by (simp add: abs_mult)
  ultimately show ?thesis
    by (simp only:)
qed

text \<open>The angle that \<open>atan2\<close> gives for a point near the unit circle, in degrees.\<close>

lemma atan2_near_unit_circle:
  fixes \<theta> a b :: real
  assumes "- 180 \<le> \<theta>" and "\<theta> \<le> 180"
    and "\<bar>a - cos (\<theta> * pi / 180)\<bar> \<le> 1 / 1000" and "\<bar>b - sin (\<theta> * pi / 180)\<bar> \<le> 1 / 1000"
  shows "\<exists>x. timesDegrees (atan2 (Num b) (Num a)) = Num x
           \<and> (\<bar>x - \<theta>\<bar> \<le> 1 / 8 \<or> \<bar>x - (\<theta> + 360)\<bar> \<le> 1 / 8 \<or> \<bar>x - (\<theta> - 360)\<bar> \<le> 1 / 8)
           \<and> (\<bar>\<theta>\<bar> \<le> 179 \<longrightarrow> \<bar>x - \<theta>\<bar> \<le> 1 / 8)"
proof -
  define t where "t = \<theta> * pi / 180"
  obtain c d where c: "0 < c" and d: "\<bar>d\<bar> \<le> 1 / 499"
    and a: "a = c * cos (t + d)" and b: "b = c * sin (t + d)"
    using direction_near_unit_circle [OF assms(3,4)] unfolding t_def by blast
  have deg: "\<bar>d * (180 / pi)\<bar> \<le> 1 / 8"
    using d by (rule degrees_of_small_angle)
  have t_deg: "t * (180 / pi) = \<theta>"
    by (simp add: t_def)
  have e1: "(t + d) * (180 / pi) = \<theta> + d * (180 / pi)"
    by (simp only: distrib_right t_deg)
  have turn: "2 * pi * (180 / pi) = 360"
    by simp
  have "(t + d - 2 * pi) * (180 / pi) = (t + d) * (180 / pi) - 2 * pi * (180 / pi)"
    by (rule left_diff_distrib)
  then have e2: "(t + d - 2 * pi) * (180 / pi) = \<theta> - 360 + d * (180 / pi)"
    unfolding e1 turn by simp
  have "(t + d + 2 * pi) * (180 / pi) = (t + d) * (180 / pi) + 2 * pi * (180 / pi)"
    by (rule distrib_right)
  then have e3: "(t + d + 2 * pi) * (180 / pi) = \<theta> + 360 + d * (180 / pi)"
    unfolding e1 turn by simp
  have "(- 180) * pi \<le> \<theta> * pi"
    using assms(1) pi_ge_zero by (rule mult_right_mono)
  moreover have "\<theta> * pi \<le> 180 * pi"
    using assms(2) pi_ge_zero by (rule mult_right_mono)
  ultimately have t_range: "- pi \<le> t" "t \<le> pi"
    by (simp_all add: t_def)
  have small: "1 / 499 < pi / 180"
    using pi_ge_two by simp
  have inner: "\<bar>\<theta>\<bar> \<le> 179 \<Longrightarrow> - pi < t + d \<and> t + d \<le> pi"
  proof -
    assume h: "\<bar>\<theta>\<bar> \<le> 179"
    then have lo: "- 179 \<le> \<theta>" and hi: "\<theta> \<le> 179"
      by (simp_all add: abs_le_iff)
    have "(- 179) * pi \<le> \<theta> * pi"
      using lo pi_ge_zero by (rule mult_right_mono)
    moreover have "\<theta> * pi \<le> 179 * pi"
      using hi pi_ge_zero by (rule mult_right_mono)
    ultimately have "- (179 * pi / 180) \<le> t" "t \<le> 179 * pi / 180"
      by (simp_all add: t_def)
    moreover have "- (1 / 499) \<le> d" "d \<le> 1 / 499"
      using d by (simp_all add: abs_le_iff)
    ultimately show ?thesis
      using small by linarith
  qed
  consider "- pi < t + d" "t + d \<le> pi" | "pi < t + d" | "t + d \<le> - pi"
    by linarith
  then show ?thesis
  proof cases
    case 1
    then have "atan2 (Num b) (Num a) = Num (t + d)"
      unfolding a b using c by (intro atan2_polar)
    then have "timesDegrees (atan2 (Num b) (Num a)) = Num (\<theta> + d * (180 / pi))"
      unfolding e1 [symmetric] by (simp add: timesDegrees_def)
    moreover have "\<bar>(\<theta> + d * (180 / pi)) - \<theta>\<bar> \<le> 1 / 8"
      using deg by simp
    ultimately show ?thesis by blast
  next
    case 2
    then have no: "\<not> \<bar>\<theta>\<bar> \<le> 179"
      using inner by linarith
    have "d \<le> 1 / 499"
      using d by (simp add: abs_le_iff)
    then have r: "- pi < t + d - 2 * pi" "t + d - 2 * pi \<le> pi"
      using 2 t_range pi_ge_two by linarith+
    have "atan2 (Num (c * sin (t + d - 2 * pi))) (Num (c * cos (t + d - 2 * pi)))
        = Num (t + d - 2 * pi)"
      using c r by (intro atan2_polar)
    then have "atan2 (Num b) (Num a) = Num (t + d - 2 * pi)"
      unfolding a b by (simp add: sin_diff cos_diff)
    then have "timesDegrees (atan2 (Num b) (Num a)) = Num (\<theta> - 360 + d * (180 / pi))"
      unfolding e2 [symmetric] by (simp add: timesDegrees_def)
    moreover have "\<bar>(\<theta> - 360 + d * (180 / pi)) - (\<theta> - 360)\<bar> \<le> 1 / 8"
      using deg by simp
    ultimately show ?thesis using no by blast
  next
    case 3
    then have no: "\<not> \<bar>\<theta>\<bar> \<le> 179"
      using inner by linarith
    have "- (1 / 499) \<le> d"
      using d by (simp add: abs_le_iff)
    then have r: "- pi < t + d + 2 * pi" "t + d + 2 * pi \<le> pi"
      using 3 t_range pi_ge_two by linarith+
    have "atan2 (Num (c * sin (t + d + 2 * pi))) (Num (c * cos (t + d + 2 * pi)))
        = Num (t + d + 2 * pi)"
      using c r by (intro atan2_polar)
    then have "atan2 (Num b) (Num a) = Num (t + d + 2 * pi)"
      unfolding a b by simp
    then have "timesDegrees (atan2 (Num b) (Num a)) = Num (\<theta> + 360 + d * (180 / pi))"
      unfolding e3 [symmetric] by (simp add: timesDegrees_def)
    moreover have "\<bar>(\<theta> + 360 + d * (180 / pi)) - (\<theta> + 360)\<bar> \<le> 1 / 8"
      using deg by simp
    ultimately show ?thesis using no by blast
  qed
qed

lemma double_707107: "roundDouble (707107 / 1000000) = Num (6369053643422139 / 2 ^ 53)"
  by (subst roundDouble_binade [where e = "- 1"])
    (simp_all add: pow2_def roundHalfEven_def Let_def)

lemma sqrt_two_bounds: "1414 / 1000 < sqrt 2" "sqrt 2 < 1415 / 1000"
proof -
  have "(1414 / 1000)\<^sup>2 < (2 :: real)"
    by (simp add: power2_eq_square)
  then show "1414 / 1000 < sqrt 2"
    by (rule real_less_rsqrt)
  have "(2 :: real) < (1415 / 1000)\<^sup>2"
    by (simp add: power2_eq_square)
  then show "sqrt 2 < 1415 / 1000"
    by (intro real_less_lsqrt) simp_all
qed

text \<open>
  Claim C5, as amended. For every angle \<open>\<theta>\<close> from -180 to 180 (degrees) and every matrix
  string whose first two components read as numbers within 0.001 of \<open>cos \<theta>\<close> and
  \<open>sin \<theta>\<close>, rotation extraction returns a whole number within 5/8 of a degree of \<open>\<theta>\<close>,
  or of \<open>\<theta> + 360\<close> or \<open>\<theta> - 360\<close>, which name the same direction. When \<open>\<theta>\<close> is at
  most 179 in magnitude the result is within 5/8 of \<open>\<theta>\<close> itself, so it is \<open>round \<theta>\<close> or a
  whole number next to it.
\<close>

theorem rotation_within_tolerance:
  fixes \<theta> a b :: real
  assumes "- 180 \<le> \<theta>" and "\<theta> \<le> 180"
    and "matrixValues matrix = Inr values" and "2 \<le> length values"
    and "parseFloat (values ! 0) = Num a" and "parseFloat (values ! 1) = Num b"
    and "\<bar>a - cos (\<theta> * pi / 180)\<bar> \<le> 1 / 1000" and "\<bar>b - sin (\<theta> * pi / 180)\<bar> \<le> 1 / 1000"
  shows "\<exists>k::int.
           (getRotationFromMatrix matrix = (Num (of_int k), [])
            \<or> k = 0 \<and> getRotationFromMatrix matrix = (NegZero, []))
           \<and> (\<bar>of_int k - \<theta>\<bar> \<le> 5 / 8 \<or> \<bar>of_int k - (\<theta> + 360)\<bar> \<le> 5 / 8
                \<or> \<bar>of_int k - (\<theta> - 360)\<bar> \<le> 5 / 8)
           \<and> (\<bar>\<theta>\<bar> \<le> 179
                \<longrightarrow> \<bar>of_int k - \<theta>\<bar> \<le> 5 / 8 \<and> \<bar>k - \<lfloor>\<theta> + 1 / 2\<rfloor>\<bar> \<le> 1)"
proof -
  have ne: "matrix \<noteq> ''none''" "matrix \<noteq> []"
    using assms(3) by (auto simp: matrixValues_def)
  obtain x where x: "timesDegrees (atan2 (Num b) (Num a)) = Num x"
    and near: "\<bar>x - \<theta>\<bar> \<le> 1 / 8 \<or> \<bar>x - (\<theta> + 360)\<bar> \<le> 1 / 8 \<or> \<bar>x - (\<theta> - 360)\<bar> \<le> 1 / 8"
    and inner: "\<bar>\<theta>\<bar> \<le> 179 \<longrightarrow> \<bar>x - \<theta>\<bar> \<le> 1 / 8"
    using atan2_near_unit_circle [OF assms(1,2,7,8)] by blast
  have "rotationOfValues values = Math_round (Num x)"
    using assms(4,5,6) x by (simp add: rotationOfValues_def isNaN_def)
  then have g: "getRotationFromMatrix matrix = (Math_round (Num x), [])"
    using ne assms(3) by (simp add: getRotationFromMatrix_def)
  obtain k :: int where k: "Math_round (Num x) = Num (of_int k) \<or> k = 0 \<and> Math_round (Num x) = NegZero"
    and kx: "\<bar>of_int k - x\<bar> \<le> 1 / 2"
    using Math_round_near [of x] by auto
  have "\<bar>of_int k - \<theta>\<bar> \<le> 5 / 8 \<or> \<bar>of_int k - (\<theta> + 360)\<bar> \<le> 5 / 8
      \<or> \<bar>of_int k - (\<theta> - 360)\<bar> \<le> 5 / 8"
    using near kx by linarith
  moreover have "\<bar>\<theta>\<bar> \<le> 179 \<longrightarrow> \<bar>of_int k - \<theta>\<bar> \<le> 5 / 8"
    using inner kx by linarith
  moreover have "\<bar>real_of_int k - \<theta>\<bar> \<le> 5 / 8 \<longrightarrow> \<bar>k - \<lfloor>\<theta> + 1 / 2\<rfloor>\<bar> \<le> 1"
  proof
    assume n: "\<bar>real_of_int k - \<theta>\<bar> \<le> 5 / 8"
    have "real_of_int \<lfloor>\<theta> + 1 / 2\<rfloor> \<le> \<theta> + 1 / 2" "\<theta> + 1 / 2 < real_of_int \<lfloor>\<theta> + 1 / 2\<rfloor> + 1"
      by linarith+
    then have "real_of_int (k - \<lfloor>\<theta> + 1 / 2\<rfloor>) < 2" "- 2 < real_of_int (k - \<lfloor>\<theta> + 1 / 2\<rfloor>)"
      using n by linarith+
    then have "k - \<lfloor>\<theta> + 1 / 2\<rfloor> < 2" "- 2 < k - \<lfloor>\<theta> + 1 / 2\<rfloor>"
      by linarith+
    then show "\<bar>k - \<lfloor>\<theta> + 1 / 2\<rfloor>\<bar> \<le> 1"
      by linarith
  qed
  ultimately show ?thesis
    using k g by (intro exI [of _ k]) auto
qed

text \<open>Claim C5, as amended, at the rotation by 45 degrees with its components written
  to six decimals.\<close>

theorem rotation_within_tolerance_witness:
  "matrixValues ''matrix(0.707107, 0.707107, -0.707107, 0.707107, 0, 0)''
     = Inr [''0.707107'', '' 0.707107'', '' -0.707107'', '' 0.707107'', '' 0'', '' 0'']
   \<and> parseFloat ''0.707107'' = Num (6369053643422139 / 2 ^ 53)
   \<and> parseFloat '' 0.707107'' = Num (6369053643422139 / 2 ^ 53)
   \<and> \<bar>6369053643422139 / 2 ^ 53 - cos (45 * pi / 180)\<bar> \<le> 1 / 1000
   \<and> \<bar>6369053643422139 / 2 ^ 53 - sin (45 * pi / 180)\<bar> \<le> 1 / 1000
   \<and> getRotationFromMatrix ''matrix(0.707107, 0.707107, -0.707107, 0.707107, 0, 0)'' = (Num 45, [])
   \<and> (\<exists>k::int.
         (getRotationFromMatrix ''matrix(0.707107, 0.707107, -0.707107, 0.707107, 0, 0)''
            = (Num (of_int k), [])
          \<or> k = 0 \<and> getRotationFromMatrix ''matrix(0.707107, 0.707107, -0.707107, 0.707107, 0, 0)''
            = (NegZero, []))
         \<and> \<bar>of_int k - 45\<bar> \<le> (5 / 8 :: real) \<and> \<bar>k - \<lfloor>45 + 1 / 2 :: real\<rfloor>\<bar> \<le> 1)"
proof -
  let ?m = "''matrix(0.707107, 0.707107, -0.707107, 0.707107, 0, 0)''"
  let ?vs = "[''0.707107'', '' 0.707107'', '' -0.707107'', '' 0.707107'', '' 0'', '' 0'']"
  have v: "matrixValues ?m = Inr ?vs"
    by (simp add: matrixValues_def)
  have l: "2 \<le> length ?vs"
    by simp
  have pa: "parseFloat ''0.707107'' = Num (6369053643422139 / 2 ^ 53)"
    by (simp add: parse_defs double_707107)
  have pb: "parseFloat '' 0.707107'' = Num (6369053643422139 / 2 ^ 53)"
    by (simp add: parse_defs double_707107)
  have pa': "parseFloat (?vs ! 0) = Num (6369053643422139 / 2 ^ 53)"
    using pa by simp
  have pb': "parseFloat (?vs ! 1) = Num (6369053643422139 / 2 ^ 53)"
    using pb by simp
  have q: "45 * pi / 180 = pi / 4"
    by simp
  have n: "(7071 / 10000 :: real) \<le> 6369053643422139 / 2 ^ 53"
    "(6369053643422139 / 2 ^ 53 :: real) \<le> 7072 / 10000"
    by simp_all
  have ca: "\<bar>6369053643422139 / 2 ^ 53 - cos (45 * pi / 180)\<bar> \<le> 1 / 1000"
    unfolding q cos_45 using sqrt_two_bounds n by linarith
  have cb: "\<bar>6369053643422139 / 2 ^ 53 - sin (45 * pi / 180)\<bar> \<le> 1 / 1000"
    unfolding q sin_45 using sqrt_two_bounds n by linarith
  have "rotationOfValues ?vs = Num 45"
    by (simp add: rotationOfValues_def pa pb isNaN_def atan2_def atan2_finite_def
        timesDegrees_def Math_round_def arctan_one)
  then have g: "getRotationFromMatrix ?m = (Num 45, [])"
    by (simp add: getRotationFromMatrix_def v)
  have "\<exists>k::int.
      (getRotationFromMatrix ?m = (Num (of_int k), [])
       \<or> k = 0 \<and> getRotationFromMatrix ?m = (NegZero, []))
      \<and> \<bar>of_int k - 45\<bar> \<le> (5 / 8 :: real) \<and> \<bar>k - \<lfloor>45 + 1 / 2 :: real\<rfloor>\<bar> \<le> 1"
    using rotation_within_tolerance [of 45, OF _ _ v l pa' pb' ca cb] by auto
  then show ?thesis
    using v pa pb ca cb g by simp
qed

text \<open>
  Claim C5 as stated includes \<open>\<theta> = -180\<close>. The matrix of that rotation is the matrix of
  the half turn, and extraction returns 180, not \<open>round (-180) = -180\<close>.
\<close>

theorem rotation_of_half_turn_counterexample:
  "matrixValues ''matrix(-1, 0, 0, -1, 0, 0)'' = Inr [''-1'', '' 0'', '' 0'', '' -1'', '' 0'', '' 0'']
   \<and> parseFloat ''-1'' = Num (cos (- 180 * pi / 180))
   \<and> parseFloat '' 0'' = Num (sin (- 180 * pi / 180))
   \<and> getRotationFromMatrix ''matrix(-1, 0, 0, -1, 0, 0)'' = (Num 180, [])
   \<and> Math_round (Num (- 180)) = Num (- 180)
   \<and> fst (getRotationFromMatrix ''matrix(-1, 0, 0, -1, 0, 0)'') \<noteq> Math_round (Num (- 180))"
proof -
  have v: "matrixValues ''matrix(-1, 0, 0, -1, 0, 0)'' = Inr [''-1'', '' 0'', '' 0'', '' -1'', '' 0'', '' 0'']"
    by (simp add: matrixValues_def)
  have a: "parseFloat ''-1'' = Num (cos (- 180 * pi / 180))"
    by (simp add: parse_defs)
  have b: "parseFloat '' 0'' = Num (sin (- 180 * pi / 180))"
    by (simp add: parse_defs)
  have g: "getRotationFromMatrix ''matrix(-1, 0, 0, -1, 0, 0)'' = (Num 180, [])"
    by (simp add: getRotationFromMatrix_def matrixValues_def rotationOfValues_def parse_defs
        isNaN_def atan2_def positiveOrPlusZero_def timesDegrees_def Math_round_def)
  have r: "Math_round (Num (- 180)) = Num (- 180)"
    by (simp add: Math_round_def)
  show ?thesis using v a b g r by simp
qed

section \<open>The page and the animator: lemmas\<close>

subsection \<open>handleIntersection\<close>

lemma logCall_parts [simp]:
  "options (logCall c s) = options s"
  "elements (logCall c s) = elements s"
  "observer (logCall c s) = observer s"
  "document (page (logCall c s)) = document (page s)"
  "scrollListeners (page (logCall c s)) = scrollListeners (page s)"
  "animationFrameRequests (page (logCall c s)) = animationFrameRequests (page s)"
  "pageYOffset (page (logCall c s)) = pageYOffset (page s)"
  "console (page (logCall c s)) = console (page s)"
  "calls (page (logCall c s)) = calls (page s) @ [c]"
  by (simp_all add: logCall_def)

lemma updateDocument_parts [simp]:
  "options (updateDocument f s) = options s"
  "elements (updateDocument f s) = elements s"
  "observer (updateDocument f s) = observer s"
  "document (page (updateDocument f s)) = f (document (page s))"
  "scrollListeners (page (updateDocument f s)) = scrollListeners (page s)"
  "animationFrameRequests (page (updateDocument f s)) = animationFrameRequests (page s)"
  "pageYOffset (page (updateDocument f s)) = pageYOffset (page s)"
  "console (page (updateDocument f s)) = console (page s)"
  "calls (page (updateDocument f s)) = calls (page s)"
  by (simp_all add: updateDocument_def)

lemma unobserveTarget_parts [simp]:
  "options (unobserveTarget x s) = options s"
  "elements (unobserveTarget x s) = elements s"
  "observer (unobserveTarget x s) = unobserve x (observer s)"
  "document (page (unobserveTarget x s)) = document (page s)"
  "scrollListeners (page (unobserveTarget x s)) = scrollListeners (page s)"
  "animationFrameRequests (page (unobserveTarget x s)) = animationFrameRequests (page s)"
  "pageYOffset (page (unobserveTarget x s)) = pageYOffset (page s)"
  "console (page (unobserveTarget x s)) = console (page s)"
  "calls (page (unobserveTarget x s)) = calls (page s) @ [Unobserve x]"
  by (simp_all add: unobserveTarget_def)

lemma observeTarget_parts [simp]:
  "options (observeTarget x s) = options s"
  "elements (observeTarget x s) = elements s"
  "observer (observeTarget x s) = observe x (observer s)"
  "document (page (observeTarget x s)) = document (page s)"
  "scrollListeners (page (observeTarget x s)) = scrollListeners (page s)"
  "animationFrameRequests (page (observeTarget x s)) = animationFrameRequests (page s)"
  "pageYOffset (page (observeTarget x s)) = pageYOffset (page s)"
  "console (page (observeTarget x s)) = console (page s)"
  "calls (page (observeTarget x s)) = calls (page s) @ [Observe x]"
  by (simp_all add: observeTarget_def)

lemma setTransitionDelay_parts [simp]:
  "options (setTransitionDelay x v s) = options s"
  "elements (setTransitionDelay x v s) = elements s"
  "observer (setTransitionDelay x v s) = observer s"
  "document (page (setTransitionDelay x v s))
     = (document (page s))[x := (document (page s) ! x)\<lparr>transitionDelay := v\<rparr>]"
  "scrollListeners (page (setTransitionDelay x v s)) = scrollListeners (page s)"
  "animationFrameRequests (page (setTransitionDelay x v s)) = animationFrameRequests (page s)"
  "pageYOffset (page (setTransitionDelay x v s)) = pageYOffset (page s)"
  "console (page (setTransitionDelay x v s)) = console (page s)"
  "calls (page (setTransitionDelay x v s)) = calls (page s) @ [SetTransitionDelay x v]"
  by (simp_all add: setTransitionDelay_def)

lemma handleEntry_options [simp]: "options (handleEntry e s) = options s"
  by (simp add: handleEntry_def Let_def)

lemma handleEntry_length [simp]:
  "length (document (page (handleEntry e s))) = length (document (page s))"
  by (simp add: handleEntry_def Let_def)

lemma handleIntersection_options [simp]: "options (handleIntersection s es) = options s"
  unfolding handleIntersection_def by (induction es arbitrary: s) simp_all

lemma handleIntersection_length [simp]:
  "length (document (page (handleIntersection s es))) = length (document (page s))"
  unfolding handleIntersection_def by (induction es arbitrary: s) simp_all

lemma handleIntersection_snoc:
  "handleIntersection s (es @ [e]) = handleEntry e (handleIntersection s es)"
  by (simp add: handleIntersection_def)

lemma revealed_handleEntry_target:
  assumes "target e < length (document (page s))"
  shows "revealed (document (page (handleEntry e s))) (target e)
         \<longleftrightarrow> isIntersecting e \<or> (once (options s) \<and> revealed (document (page s)) (target e))"
  using assms
  by (auto simp: handleEntry_def Let_def revealed_def classList_add_def classList_remove_def)

lemma revealed_handleEntry_once:
  assumes "once (options s)" and "revealed (document (page s)) x"
  shows "revealed (document (page (handleEntry e s))) x"
proof (cases "x = target e \<and> target e < length (document (page s))")
  case True
  then show ?thesis
    using assms revealed_handleEntry_target [of e s] by simp
next
  case False
  then have "document (page (handleEntry e s)) ! x = document (page s) ! x"
    by (auto simp: handleEntry_def Let_def list_update_beyond not_less)
  then show ?thesis using assms(2) by (simp add: revealed_def)
qed

lemma unobserved_handleEntry_once:
  assumes "once (options s)" and "x \<notin> set (observed (observer s))"
  shows "x \<notin> set (observed (observer (handleEntry e s)))"
  using assms by (simp add: handleEntry_def Let_def unobserve_def)

lemma handleIntersection_once_keeps:
  assumes "once (options s)" and "revealed (document (page s)) x"
  shows "revealed (document (page (handleIntersection s es))) x"
  using assms
proof (induction es arbitrary: s)
  case Nil
  then show ?case by (simp add: handleIntersection_def)
next
  case (Cons e es)
  have "revealed (document (page (handleIntersection (handleEntry e s) es))) x"
    using Cons.prems by (intro Cons.IH revealed_handleEntry_once) simp_all
  then show ?case by (simp add: handleIntersection_def)
qed

lemma handleIntersection_once_unobserved:
  assumes "once (options s)" and "x \<notin> set (observed (observer s))"
  shows "x \<notin> set (observed (observer (handleIntersection s es)))"
  using assms
proof (induction es arbitrary: s)
  case Nil
  then show ?case by (simp add: handleIntersection_def)
next
  case (Cons e es)
  have "x \<notin> set (observed (observer (handleIntersection (handleEntry e s) es)))"
    using Cons.prems by (intro Cons.IH unobserved_handleEntry_once) simp_all
  then show ?case by (simp add: handleIntersection_def)
qed

subsection \<open>init and refresh\<close>

lemma delayed_attributes [simp]: "attributes (delayed e) = attributes e"
  by (simp add: delayed_def split: option.splits)

lemma delayed_classList [simp]: "classList (delayed e) = classList e"
  by (simp add: delayed_def split: option.splits)

lemma delayed_idem [simp]: "delayed (delayed e) = delayed e"
  by (simp add: delayed_def getAttribute_def split: option.splits)

lemma matches_delayed [simp]: "matches sel (delayed e) = matches sel e"
  by (simp add: matches_def getAttribute_def split: selector.splits)

lemma length_applyDelay [simp]: "length (applyDelay x d) = length d"
  by (simp add: applyDelay_def)

lemma applyDelay_nth:
  "i < length d \<Longrightarrow> applyDelay x d ! i = (if i = x then delayed (d ! i) else d ! i)"
  by (simp add: applyDelay_def)

lemma length_fold_applyDelay [simp]: "length (fold applyDelay xs d) = length d"
  by (induction xs arbitrary: d) simp_all

lemma fold_applyDelay_nth:
  "i < length d \<Longrightarrow> fold applyDelay xs d ! i = (if i \<in> set xs then delayed (d ! i) else d ! i)"
proof (induction xs arbitrary: d)
  case Nil
  then show ?case by simp
next
  case (Cons x xs)
  then have "fold applyDelay xs (applyDelay x d) ! i
      = (if i \<in> set xs then delayed (applyDelay x d ! i) else applyDelay x d ! i)"
    by simp
  then show ?case
    using Cons.prems by (auto simp: applyDelay_nth)
qed

lemma querySelectorAll_cong:
  assumes "length d' = length d" and "\<And>i. i < length d \<Longrightarrow> matches sel (d' ! i) = matches sel (d ! i)"
  shows "querySelectorAll d' sel = querySelectorAll d sel"
  unfolding querySelectorAll_def using assms by (auto intro: filter_cong)

lemma querySelectorAll_fold_applyDelay [simp]:
  "querySelectorAll (fold applyDelay xs d) sel = querySelectorAll d sel"
  by (rule querySelectorAll_cong) (simp_all add: fold_applyDelay_nth)

lemma fold_applyDelay_idem: "fold applyDelay xs (fold applyDelay xs d) = fold applyDelay xs d"
  by (rule nth_equalityI) (simp_all add: fold_applyDelay_nth)

lemma querySelectorAll_distinct: "distinct (querySelectorAll d sel)"
  by (simp add: querySelectorAll_def)

lemma querySelectorAll_bound: "x \<in> set (querySelectorAll d sel) \<Longrightarrow> x < length d"
  by (simp add: querySelectorAll_def)

lemma nth_update_element:
  "d[j := e] ! i = (if i = j \<and> j < length d then e else d ! i)"
  by (cases "j < length d") (auto simp: list_update_beyond)

lemma getAttribute_applyDelay [simp]:
  "getAttribute (applyDelay x d ! y) name = getAttribute (d ! y) name"
  by (simp add: applyDelay_def nth_update_element getAttribute_def)

lemma getAttribute_fold_applyDelay [simp]:
  "getAttribute (fold applyDelay xs d ! y) name = getAttribute (d ! y) name"
  by (induction xs arbitrary: d) simp_all

lemma elementCalls_fold_applyDelay [simp]:
  "elementCalls (fold applyDelay xs d) y = elementCalls d y"
  by (simp add: elementCalls_def)

lemma elementCalls_target:
  "c \<in> set (elementCalls d y) \<Longrightarrow> c = Observe y \<or> (\<exists>v. c = SetTransitionDelay y v)"
  by (auto simp: elementCalls_def split: option.splits if_splits)

lemma elementCalls_delay:
  "SetTransitionDelay x v \<in> set (elementCalls d y) \<Longrightarrow> getAttribute (d ! x) ''data-scroll-delay'' \<noteq> None"
  by (cases "getAttribute (d ! y) ''data-scroll-delay''")
    (auto simp: elementCalls_def split: if_splits)

lemma observeElement_parts:
  "options (observeElement x s) = options s"
  "elements (observeElement x s) = elements s"
  "observer (observeElement x s) = observe x (observer s)"
  "document (page (observeElement x s)) = applyDelay x (document (page s))"
  "scrollListeners (page (observeElement x s)) = scrollListeners (page s)"
  "animationFrameRequests (page (observeElement x s)) = animationFrameRequests (page s)"
  "pageYOffset (page (observeElement x s)) = pageYOffset (page s)"
  "console (page (observeElement x s)) = console (page s)"
  "calls (page (observeElement x s)) = calls (page s) @ elementCalls (document (page s)) x"
  by (simp_all add: observeElement_def Let_def applyDelay_def delayed_def elementCalls_def
      split: option.splits)

lemma fold_observeElement_parts:
  "options (fold observeElement xs s) = options s"
  "elements (fold observeElement xs s) = elements s"
  "observer (fold observeElement xs s) = fold observe xs (observer s)"
  "document (page (fold observeElement xs s)) = fold applyDelay xs (document (page s))"
  "scrollListeners (page (fold observeElement xs s)) = scrollListeners (page s)"
  "animationFrameRequests (page (fold observeElement xs s)) = animationFrameRequests (page s)"
  "pageYOffset (page (fold observeElement xs s)) = pageYOffset (page s)"
  "console (page (fold observeElement xs s)) = console (page s)"
  by (induction xs arbitrary: s) (simp_all add: observeElement_parts)

lemma fold_observeElement_calls:
  "calls (page (fold observeElement xs s))
     = calls (page s) @ concat (map (elementCalls (document (page s))) xs)"
proof (induction xs arbitrary: s)
  case Nil
  then show ?case by simp
next
  case (Cons x xs)
  have "elementCalls (applyDelay x (document (page s))) y = elementCalls (document (page s)) y" for y
    using elementCalls_fold_applyDelay [of "[x]"] by simp
  then show ?case
    by (simp add: Cons.IH observeElement_parts)
qed

lemma set_observed_fold_observe:
  "set (observed (fold observe xs ob)) = set (observed ob) \<union> set xs"
  by (induction xs arbitrary: ob) (auto simp: observe_def)

lemma init_parts:
  "options (init opts p) = opts"
  "elements (init opts p) = querySelectorAll (document p) (HasAttribute ''data-scroll'')"
  "observer (init opts p)
     = fold observe (querySelectorAll (document p) (HasAttribute ''data-scroll'')) (newObserver opts)"
  "document (page (init opts p))
     = fold applyDelay (querySelectorAll (document p) (HasAttribute ''data-scroll'')) (document p)"
  "scrollListeners (page (init opts p)) = scrollListeners p @ [False]"
  "animationFrameRequests (page (init opts p)) = animationFrameRequests p"
  "pageYOffset (page (init opts p)) = pageYOffset p"
  "console (page (init opts p)) = console p"
  by (simp_all add: init_def Let_def fold_observeElement_parts addParallaxEffect_def)

lemma init_calls:
  "calls (page (init opts p))
     = calls p @ concat (map (elementCalls (document p))
         (querySelectorAll (document p) (HasAttribute ''data-scroll'')))"
  by (simp add: init_def Let_def fold_observeElement_calls addParallaxEffect_def)

lemma fold_unobserveTarget_parts:
  "options (fold unobserveTarget xs s) = options s"
  "document (page (fold unobserveTarget xs s)) = document (page s)"
  "scrollListeners (page (fold unobserveTarget xs s)) = scrollListeners (page s)"
  "animationFrameRequests (page (fold unobserveTarget xs s)) = animationFrameRequests (page s)"
  "pageYOffset (page (fold unobserveTarget xs s)) = pageYOffset (page s)"
  "console (page (fold unobserveTarget xs s)) = console (page s)"
  by (induction xs arbitrary: s) simp_all

lemma refresh_parts:
  "options (refresh s) = options s"
  "elements (refresh s) = querySelectorAll (document (page s)) (HasAttribute ''data-scroll'')"
  "observer (refresh s)
     = fold observe (querySelectorAll (document (page s)) (HasAttribute ''data-scroll''))
         (newObserver (options s))"
  "document (page (refresh s))
     = fold applyDelay (querySelectorAll (document (page s)) (HasAttribute ''data-scroll''))
         (document (page s))"
  "scrollListeners (page (refresh s)) = scrollListeners (page s) @ [False]"
  "animationFrameRequests (page (refresh s)) = animationFrameRequests (page s)"
  by (simp_all add: refresh_def Let_def init_parts fold_unobserveTarget_parts)

subsection \<open>updateParallax\<close>

lemma closest_cong_fields:
  assumes "length d' = length d"
    and "\<And>i. i < length d \<Longrightarrow> attributes (d' ! i) = attributes (d ! i)"
    and "\<And>i. i < length d \<Longrightarrow> classList (d' ! i) = classList (d ! i)"
    and "\<And>i. i < length d \<Longrightarrow> parentElement (d' ! i) = parentElement (d ! i)"
  shows "closest d' sel i = closest d sel i"
proof (induction i rule: less_induct)
  case (less i)
  show ?case
  proof (cases "i < length d")
    case True
    have m: "matches sel (d' ! i) = matches sel (d ! i)"
      using True assms(2,3) by (simp add: matches_def getAttribute_def split: selector.splits)
    have p: "parentElement (d' ! i) = parentElement (d ! i)"
      using True assms(4) by simp
    show ?thesis
      using True m p less.IH assms(1)
      by (subst (1 2) closest.simps) (auto split: option.splits)
  next
    case False
    then show ?thesis
      using assms(1) by (subst (1 2) closest.simps) simp
  qed
qed

lemma parallaxStep_document:
  "document (parallaxStep scrolled (k, j) p)
     = (document p)[j := parallaxResult scrolled k (document p) j]"
  by (simp add: parallaxStep_def parallaxResult_def Let_def)

lemma parallaxStep_fields [simp]:
  "calls (parallaxStep scrolled it p) = calls p"
  "scrollListeners (parallaxStep scrolled it p) = scrollListeners p"
  "animationFrameRequests (parallaxStep scrolled it p) = animationFrameRequests p"
  "pageYOffset (parallaxStep scrolled it p) = pageYOffset p"
  "length (document (parallaxStep scrolled it p)) = length (document p)"
  by (simp_all add: parallaxStep_def Let_def)

lemma parallaxResult_fields [simp]:
  "attributes (parallaxResult scrolled k d j) = attributes (d ! j)"
  "classList (parallaxResult scrolled k d j) = classList (d ! j)"
  "parentElement (parallaxResult scrolled k d j) = parentElement (d ! j)"
  "computedTransform (parallaxResult scrolled k d j) = computedTransform (d ! j)"
  by (simp_all add: parallaxResult_def)

lemma skipsTriangle_update:
  assumes "attributes e = attributes (d ! j)" and "classList e = classList (d ! j)"
    and "parentElement e = parentElement (d ! j)"
  shows "skipsTriangle (d[j := e]) i = skipsTriangle d i"
proof -
  have "closest (d[j := e]) sel i = closest d sel i" for sel
    using assms by (intro closest_cong_fields) (simp_all add: nth_update_element)
  moreover have "classList (d[j := e] ! i) = classList (d ! i)"
    using assms by (simp add: nth_update_element)
  ultimately show ?thesis by (simp add: skipsTriangle_def)
qed

lemma parallaxResult_update:
  assumes "i \<noteq> j" and "attributes e = attributes (d ! j)" and "classList e = classList (d ! j)"
    and "parentElement e = parentElement (d ! j)"
  shows "parallaxResult scrolled k (d[j := e]) i = parallaxResult scrolled k d i"
  using assms by (simp add: parallaxResult_def skipsTriangle_update nth_update_element)

lemma fold_parallaxStep_length [simp]:
  "length (document (fold (parallaxStep scrolled) its p)) = length (document p)"
  by (induction its arbitrary: p) simp_all

lemma fold_parallaxStep_fields [simp]:
  "scrollListeners (fold (parallaxStep scrolled) its p) = scrollListeners p"
  "animationFrameRequests (fold (parallaxStep scrolled) its p) = animationFrameRequests p"
  "pageYOffset (fold (parallaxStep scrolled) its p) = pageYOffset p"
  by (induction its arbitrary: p) simp_all

lemma fold_parallaxStep_other:
  assumes "j \<notin> snd ` set its"
  shows "document (fold (parallaxStep scrolled) its p) ! j = document p ! j"
  using assms
proof (induction its arbitrary: p)
  case Nil
  then show ?case by simp
next
  case (Cons it its)
  obtain k t where it: "it = (k, t)" by (cases it)
  have "document (fold (parallaxStep scrolled) its (parallaxStep scrolled it p)) ! j
      = document (parallaxStep scrolled it p) ! j"
    using Cons.prems by (intro Cons.IH) simp
  also have "\<dots> = document p ! j"
    using Cons.prems it by (simp add: parallaxStep_document)
  finally show ?case by simp
qed

lemma fold_parallaxStep_member:
  assumes "distinct (map snd its)" and "(k, j) \<in> set its" and "j < length (document p)"
  shows "document (fold (parallaxStep scrolled) its p) ! j = parallaxResult scrolled k (document p) j"
  using assms
proof (induction its arbitrary: p)
  case Nil
  then show ?case by simp
next
  case (Cons it its)
  obtain k' t where it: "it = (k', t)" by (cases it)
  let ?p1 = "parallaxStep scrolled it p"
  show ?case
  proof (cases "(k, j) = it")
    case True
    have "snd it \<notin> snd ` set its"
      using Cons.prems(1) by simp
    then have "j \<notin> snd ` set its"
      using True [symmetric] by simp
    then have "document (fold (parallaxStep scrolled) its ?p1) ! j = document ?p1 ! j"
      by (rule fold_parallaxStep_other)
    also have "\<dots> = parallaxResult scrolled k (document p) j"
      using True Cons.prems(3) it by (simp add: parallaxStep_document)
    finally show ?thesis by simp
  next
    case False
    then have mem: "(k, j) \<in> set its"
      using Cons.prems(2) by simp
    then have "j \<in> snd ` set its"
      by force
    then have ne: "j \<noteq> t"
      using Cons.prems(1) it by auto
    have "document (fold (parallaxStep scrolled) its ?p1) ! j
        = parallaxResult scrolled k (document ?p1) j"
      using Cons.prems mem by (intro Cons.IH) simp_all
    also have "\<dots> = parallaxResult scrolled k (document p) j"
      using ne it by (simp add: parallaxStep_document parallaxResult_update)
    finally show ?thesis by simp
  qed
qed

lemma updateParallax_nth:
  assumes "i < length (querySelectorAll (document p) (HasClass ''triangle''))"
  shows "document (updateParallax p) ! (querySelectorAll (document p) (HasClass ''triangle'') ! i)
         = parallaxResult (pageYOffset p) i (document p)
             (querySelectorAll (document p) (HasClass ''triangle'') ! i)"
proof -
  let ?ts = "querySelectorAll (document p) (HasClass ''triangle'')"
  have "distinct (map snd (enumerate 0 ?ts))"
    by (simp add: querySelectorAll_def)
  moreover have "(i, ?ts ! i) \<in> set (enumerate 0 ?ts)"
    using assms by (simp add: in_set_enumerate_eq)
  moreover have "?ts ! i < length (document p)"
    using assms nth_mem [of i ?ts] by (simp add: querySelectorAll_def del: nth_mem)
  ultimately show ?thesis
    unfolding updateParallax_def Let_def by (rule fold_parallaxStep_member)
qed

lemma updateParallax_fields [simp]:
  "scrollListeners (updateParallax p) = scrollListeners p"
  "animationFrameRequests (updateParallax p) = animationFrameRequests p"
  "pageYOffset (updateParallax p) = pageYOffset p"
  by (simp_all add: updateParallax_def Let_def)

subsection \<open>The scroll listener and the animation frame\<close>

lemma closest_self: "i < length d \<Longrightarrow> matches sel (d ! i) \<Longrightarrow> closest d sel i = Some i"
  by (subst closest.simps) simp

lemma parallaxStep_requests:
  "parallaxStep scrolled it (p\<lparr>animationFrameRequests := r\<rparr>)
   = (parallaxStep scrolled it p)\<lparr>animationFrameRequests := r\<rparr>"
  by (simp add: parallaxStep_def Let_def)

lemma fold_parallaxStep_requests:
  "fold (parallaxStep scrolled) its (p\<lparr>animationFrameRequests := r\<rparr>)
   = (fold (parallaxStep scrolled) its p)\<lparr>animationFrameRequests := r\<rparr>"
  by (induction its arbitrary: p) (simp_all add: parallaxStep_requests)

lemma updateParallax_requests:
  "updateParallax (p\<lparr>animationFrameRequests := r\<rparr>) = (updateParallax p)\<lparr>animationFrameRequests := r\<rparr>"
  by (simp add: updateParallax_def Let_def fold_parallaxStep_requests)

lemma parallaxStep_listeners:
  "parallaxStep scrolled it (p\<lparr>scrollListeners := l\<rparr>)
   = (parallaxStep scrolled it p)\<lparr>scrollListeners := l\<rparr>"
  by (simp add: parallaxStep_def Let_def)

lemma fold_parallaxStep_listeners:
  "fold (parallaxStep scrolled) its (p\<lparr>scrollListeners := l\<rparr>)
   = (fold (parallaxStep scrolled) its p)\<lparr>scrollListeners := l\<rparr>"
  by (induction its arbitrary: p) (simp_all add: parallaxStep_listeners)

lemma updateParallax_listeners:
  "updateParallax (p\<lparr>scrollListeners := l\<rparr>) = (updateParallax p)\<lparr>scrollListeners := l\<rparr>"
  by (simp add: updateParallax_def Let_def fold_parallaxStep_listeners)

lemma scrollEvent_single:
  assumes "scrollListeners p = [b]"
  shows "scrollListeners (scrollEvent y p) = [True]"
    and "animationFrameRequests (scrollEvent y p)
         = (if b then animationFrameRequests p else animationFrameRequests p @ [0])"
  using assms by (simp_all add: scrollEvent_def scrollListener_def)

lemma animationFrame_none:
  assumes "animationFrameRequests p = []"
  shows "animationFrame p = p"
  using assms by (simp add: animationFrame_def)

lemma animationFrame_one:
  assumes "animationFrameRequests p = [k]"
  shows "animationFrame p
         = (updateParallax p)\<lparr>animationFrameRequests := [], scrollListeners := (scrollListeners p)[k := False]\<rparr>"
  using assms
  by (simp add: animationFrame_def frameCallback_def Let_def updateParallax_requests)

lemma pendingInvariant_step:
  assumes "pendingInvariant p"
  shows "pendingInvariant (step ev p)"
proof (cases ev)
  case (Scroll y)
  then show ?thesis
    using assms scrollEvent_single [of p True y] scrollEvent_single [of p False y]
    by (auto simp: pendingInvariant_def)
next
  case AnimationFrame
  then show ?thesis
    using assms by (auto simp: pendingInvariant_def animationFrame_none animationFrame_one)
qed

lemma pendingInvariant_run:
  assumes "pendingInvariant p"
  shows "pendingInvariant (run evs p)"
  using assms unfolding run_def by (induction evs arbitrary: p) (simp_all add: pendingInvariant_step)

lemma pendingInvariant_construct:
  assumes "scrollListeners p0 = []" and "animationFrameRequests p0 = []"
  shows "pendingInvariant (page (construct g p0))"
  using assms by (simp add: pendingInvariant_def construct_def init_parts)

subsection \<open>The example page\<close>

lemmas example_defs = examplePage_def emptyPage_def plainElement_def watchedElement_def

lemma example_page_fields:
  "length (document examplePage) = 6"
  "pageYOffset examplePage = Num 100"
  "scrollListeners examplePage = []"
  "animationFrameRequests examplePage = []"
  by (simp_all add: example_defs)

lemma example_calls: "calls examplePage = []"
  by (simp add: example_defs)

lemma example_elements:
  "classList (document examplePage ! 0) = [''triangle'']"
  "attributes (document examplePage ! 0) = [(''data-scroll'', ''fade-up'')]"
  "classList (document examplePage ! 2) = [''animated'']"
  "attributes (document examplePage ! 2) = [(''data-scroll'', ''fade-up'')]"
  "classList (document examplePage ! 3) = [''triangle'']"
  "parentElement (document examplePage ! 3) = Some 2"
  "transform (document examplePage ! 3) = TransformText []"
  "classList (document examplePage ! 4) = [''triangle'']"
  "computedTransform (document examplePage ! 4) = ''matrix(0, 1, -1, 0, 0, 0)''"
  "classList (document examplePage ! 5) = []"
  "attributes (document examplePage ! 5) = [(''data-scroll'', ''fade-up''), (''data-scroll-delay'', ''200'')]"
  by (simp_all add: example_defs)

lemma example_triangles:
  "querySelectorAll (document examplePage) (HasClass ''triangle'') = [0, 1, 3, 4]"
  by (simp add: querySelectorAll_def example_defs matches_def upt_rec)

lemma example_watched:
  "querySelectorAll (document examplePage) (HasAttribute ''data-scroll'') = [0, 2, 5]"
  by (simp add: querySelectorAll_def example_defs matches_def getAttribute_def upt_rec)

lemma example_closest:
  "closest (document examplePage) (HasAttribute ''data-scroll'') 0 = Some 0"
  "closest (document examplePage) (HasAttribute ''data-scroll'') 3 = Some 2"
  "closest (document examplePage) (HasAttribute ''data-scroll'') 4 = None"
  by (simp_all add: closest.simps example_defs matches_def getAttribute_def)

lemma example_skips:
  "skipsTriangle (document examplePage) 0"
  "skipsTriangle (document examplePage) 3"
  "\<not> skipsTriangle (document examplePage) 4"
  by (simp_all add: skipsTriangle_def example_closest example_elements)

lemmas rotation_defs = getRotationFromMatrix_def matrixValues_def rotationOfValues_def
  parseFloat_def unsignedLiteral_def exponentPart_def isDigit_def isWhiteSpace_def
  digitsValue_def digitValue_def pow10_def
  isNaN_def atan2_def atan2_finite_def positiveOrPlusZero_def timesDegrees_def Math_round_def

lemma example_rotation: "getRotationFromMatrix ''matrix(0, 1, -1, 0, 0, 0)'' = (Num 90, [])"
  by (simp add: rotation_defs)

subsection \<open>The animator constructed on the example page\<close>

lemma init_classList:
  "i < length (document p) \<Longrightarrow> classList (document (page (init opts p)) ! i) = classList (document p ! i)"
  by (simp add: init_parts fold_applyDelay_nth)

lemma init_length [simp]: "length (document (page (init opts p))) = length (document p)"
  by (simp add: init_parts)

lemma example_constructed:
  "options (construct g examplePage) = mergeOptions g"
  "length (document (page (construct g examplePage))) = 6"
  "scrollListeners (page (construct g examplePage)) = [False]"
  "animationFrameRequests (page (construct g examplePage)) = []"
  "set (observed (observer (construct g examplePage))) = {0, 2, 5}"
  "classList (document (page (construct g examplePage)) ! 2) = [''animated'']"
  "classList (document (page (construct g examplePage)) ! 5) = []"
  unfolding construct_def init_parts(1,3,5,6) set_observed_fold_observe
  by (simp_all add: example_page_fields example_watched newObserver_def init_classList
      example_elements)

subsection \<open>The example options and entries\<close>

lemma example_options:
  "threshold (mergeOptions defaults) = 0.2" "\<not> once (mergeOptions defaults)"
  "threshold (mergeOptions singleShot) = 0.2" "once (mergeOptions singleShot)"
  by (simp_all add: mergeOptions_def defaults_def singleShot_def)

lemma example_entries:
  "target entering = 5" "isIntersecting entering" "intersectionRatio entering = 1"
  "target leaving = 5" "\<not> isIntersecting leaving" "intersectionRatio leaving = 0"
  by (simp_all add: entering_def leaving_def)

section \<open>The page and the animator: the claims\<close>

text \<open>
  Claim C2, as amended. The handler reads only the flag \<open>isIntersecting\<close> of a
  notification. For every threshold \<open>t\<close> and every notification whose flag agrees with
  \<open>r \<ge> t\<close> (\<open>r\<close> its visibility ratio), handling the notification, alone or at the end
  of a batch, leaves its element revealed if and only if \<open>r \<ge> t\<close>, or the animator is
  single-shot and the element was revealed already. When the animator is not single-shot,
  a notification with \<open>r < t\<close> removes the mark.
\<close>

theorem handleIntersection_reveals:
  assumes "target e < length (document (page s))"
    and "isIntersecting e = (threshold (options s) \<le> intersectionRatio e)"
  shows "(revealed (document (page (handleIntersection s (es @ [e])))) (target e)
          \<longleftrightarrow> threshold (options s) \<le> intersectionRatio e
              \<or> (once (options s) \<and> revealed (document (page (handleIntersection s es))) (target e)))
         \<and> (\<not> once (options s) \<and> intersectionRatio e < threshold (options s)
              \<longrightarrow> \<not> revealed (document (page (handleIntersection s (es @ [e])))) (target e))"
proof -
  have "target e < length (document (page (handleIntersection s es)))"
    using assms(1) by simp
  then have "revealed (document (page (handleIntersection s (es @ [e])))) (target e)
      \<longleftrightarrow> isIntersecting e
          \<or> (once (options s) \<and> revealed (document (page (handleIntersection s es))) (target e))"
    using revealed_handleEntry_target [of e "handleIntersection s es"]
    by (simp add: handleIntersection_snoc)
  then show ?thesis using assms(2) by auto
qed

text \<open>Claim C2, as amended, at an element that enters and then leaves.\<close>

theorem handleIntersection_reveals_witness:
  "target entering < length (document (page (construct defaults examplePage)))
   \<and> isIntersecting entering
       = (threshold (options (construct defaults examplePage)) \<le> intersectionRatio entering)
   \<and> revealed (document (page (handleIntersection (construct defaults examplePage) [entering]))) 5
   \<and> isIntersecting leaving
       = (threshold (options (construct defaults examplePage)) \<le> intersectionRatio leaving)
   \<and> \<not> once (options (construct defaults examplePage))
   \<and> intersectionRatio leaving < threshold (options (construct defaults examplePage))
   \<and> \<not> revealed (document (page
         (handleIntersection (construct defaults examplePage) [entering, leaving]))) 5"
proof -
  let ?s = "construct defaults examplePage"
  have a: "target entering < length (document (page ?s))"
    and b: "isIntersecting entering = (threshold (options ?s) \<le> intersectionRatio entering)"
    and c: "target leaving < length (document (page ?s))"
    and d: "isIntersecting leaving = (threshold (options ?s) \<le> intersectionRatio leaving)"
    and e: "\<not> once (options ?s)"
    and f: "intersectionRatio leaving < threshold (options ?s)"
    by (simp_all add: example_constructed example_options example_entries)
  have "revealed (document (page (handleIntersection ?s ([] @ [entering])))) (target entering)"
    using handleIntersection_reveals [OF a b, of "[]"] b by (simp add: example_entries)
  moreover have "\<not> revealed (document (page (handleIntersection ?s ([entering] @ [leaving])))) (target leaving)"
    using handleIntersection_reveals [OF c d, of "[entering]"] e f by blast
  ultimately show ?thesis
    using a b d e f by (simp add: example_entries)
qed

text \<open>
  Claim C2 as stated has no condition on the single-shot flag. In a single-shot animator a
  batch that reports an element entering and then leaving (ratio 0, below the threshold
  0.2) leaves the element revealed.
\<close>

theorem single_shot_reveal_counterexample:
  "once (options (construct singleShot examplePage))
   \<and> target leaving < length (document (page (construct singleShot examplePage)))
   \<and> isIntersecting leaving
       = (threshold (options (construct singleShot examplePage)) \<le> intersectionRatio leaving)
   \<and> \<not> revealed (document (page (construct singleShot examplePage))) (target leaving)
   \<and> revealed (document (page
         (handleIntersection (construct singleShot examplePage) [entering, leaving]))) (target leaving)
   \<and> \<not> threshold (options (construct singleShot examplePage)) \<le> intersectionRatio leaving"
proof -
  let ?s = "construct singleShot examplePage"
  have o: "once (options ?s)"
    and l: "target entering < length (document (page ?s))"
    by (simp_all add: example_constructed example_options example_entries)
  have r: "revealed (document (page (handleEntry entering ?s))) (target entering)"
    using revealed_handleEntry_target [OF l] by (simp add: example_entries)
  have "once (options (handleEntry entering ?s))"
    using o by simp
  then have "revealed (document (page (handleEntry leaving (handleEntry entering ?s)))) (target entering)"
    using r by (rule revealed_handleEntry_once)
  then have "revealed (document (page (handleIntersection ?s [entering, leaving]))) (target leaving)"
    by (simp add: handleIntersection_def example_entries)
  then show ?thesis
    by (simp add: example_constructed example_options example_entries revealed_def)
qed

text \<open>
  Claim C3. In a single-shot animator no notification removes the revealed mark of an
  element, whatever its ratio; and an element that a notification reveals is removed
  from the observed elements in the same step, and stays revealed and unobserved
  through every later batch.
\<close>

theorem single_shot_is_sticky:
  assumes "once (options s)"
  shows "(revealed (document (page s)) x \<longrightarrow> revealed (document (page (handleIntersection s es))) x)
         \<and> (isIntersecting e \<and> target e < length (document (page s)) \<longrightarrow>
              revealed (document (page (handleEntry e s))) (target e)
              \<and> target e \<notin> set (observed (observer (handleEntry e s)))
              \<and> revealed (document (page (handleIntersection (handleEntry e s) es))) (target e)
              \<and> target e \<notin> set (observed (observer (handleIntersection (handleEntry e s) es))))"
proof (intro conjI impI)
  assume "revealed (document (page s)) x"
  then show "revealed (document (page (handleIntersection s es))) x"
    using assms by (rule handleIntersection_once_keeps [rotated])
next
  assume a: "isIntersecting e \<and> target e < length (document (page s))"
  then show r: "revealed (document (page (handleEntry e s))) (target e)"
    using revealed_handleEntry_target [of e s] by simp
  show u: "target e \<notin> set (observed (observer (handleEntry e s)))"
    using a assms by (simp add: handleEntry_def Let_def unobserve_def)
  have o: "once (options (handleEntry e s))"
    using assms by simp
  show "revealed (document (page (handleIntersection (handleEntry e s) es))) (target e)"
    using o r by (rule handleIntersection_once_keeps)
  show "target e \<notin> set (observed (observer (handleIntersection (handleEntry e s) es)))"
    using o u by (rule handleIntersection_once_unobserved)
qed

text \<open>Claim C3 at a revealed section and at an element that enters.\<close>

theorem single_shot_is_sticky_witness:
  "once (options (construct singleShot examplePage))
   \<and> revealed (document (page (construct singleShot examplePage))) 2
   \<and> revealed (document (page (handleIntersection (construct singleShot examplePage)
         [leaving\<lparr>target := 2\<rparr>, leaving]))) 2
   \<and> isIntersecting entering
   \<and> target entering < length (document (page (construct singleShot examplePage)))
   \<and> 5 \<in> set (observed (observer (construct singleShot examplePage)))
   \<and> revealed (document (page (handleEntry entering (construct singleShot examplePage)))) 5
   \<and> 5 \<notin> set (observed (observer (handleEntry entering (construct singleShot examplePage))))
   \<and> revealed (document (page (handleIntersection
         (handleEntry entering (construct singleShot examplePage))
         [leaving\<lparr>target := 2\<rparr>, leaving]))) 5
   \<and> 5 \<notin> set (observed (observer (handleIntersection
         (handleEntry entering (construct singleShot examplePage))
         [leaving\<lparr>target := 2\<rparr>, leaving])))"
proof -
  let ?s = "construct singleShot examplePage"
  have o: "once (options ?s)"
    and r: "revealed (document (page ?s)) 2"
    and i: "isIntersecting entering \<and> target entering < length (document (page ?s))"
    and m: "5 \<in> set (observed (observer ?s))"
    by (simp_all add: example_constructed example_options example_entries revealed_def)
  note th = single_shot_is_sticky [OF o, of 2 "[leaving\<lparr>target := 2\<rparr>, leaving]" entering]
  have "revealed (document (page (handleIntersection ?s [leaving\<lparr>target := 2\<rparr>, leaving]))) 2"
    using th r by blast
  moreover have "revealed (document (page (handleEntry entering ?s))) (target entering)
    \<and> target entering \<notin> set (observed (observer (handleEntry entering ?s)))
    \<and> revealed (document (page (handleIntersection (handleEntry entering ?s)
         [leaving\<lparr>target := 2\<rparr>, leaving]))) (target entering)
    \<and> target entering \<notin> set (observed (observer (handleIntersection (handleEntry entering ?s)
         [leaving\<lparr>target := 2\<rparr>, leaving])))"
    using th i by blast
  ultimately show ?thesis
    using o r i m by (simp add: example_entries)
qed

text \<open>
  Claim C7. A second \<open>refresh\<close> right after a first one leaves the watched elements, the
  observer, the options and the whole document (so the class list of every element) as
  the first left them; and a \<open>refresh\<close> changes no class list.
\<close>

theorem refresh_idempotent:
  "elements (refresh (refresh s)) = elements (refresh s)
   \<and> document (page (refresh (refresh s))) = document (page (refresh s))
   \<and> observer (refresh (refresh s)) = observer (refresh s)
   \<and> options (refresh (refresh s)) = options (refresh s)
   \<and> map classList (document (page (refresh s))) = map classList (document (page s))"
proof -
  have "map classList (fold applyDelay xs d) = map classList d" for xs d
    by (rule nth_equalityI) (simp_all add: fold_applyDelay_nth)
  then show ?thesis
    by (simp add: refresh_parts init_parts fold_applyDelay_idem)
qed

text \<open>Claim C7 at the animator constructed on the example page.\<close>

theorem refresh_idempotent_witness:
  "elements (refresh (refresh (construct defaults examplePage)))
     = elements (refresh (construct defaults examplePage))
   \<and> document (page (refresh (refresh (construct defaults examplePage))))
     = document (page (refresh (construct defaults examplePage)))
   \<and> observer (refresh (refresh (construct defaults examplePage)))
     = observer (refresh (construct defaults examplePage))
   \<and> options (refresh (refresh (construct defaults examplePage)))
     = options (refresh (construct defaults examplePage))
   \<and> map classList (document (page (refresh (construct defaults examplePage))))
     = map classList (document (page (construct defaults examplePage)))"
  by (rule refresh_idempotent)

text \<open>
  Claim C9. Let \<open>x\<close> be a watched element whose delay attribute is \<open>200\<close>. Among the
  calls that \<open>init\<close> adds to the record of the page, the assignment of \<open>200ms\<close> to the
  transition delay of \<open>x\<close> comes immediately before the registration of \<open>x\<close> with the
  observer, and \<open>x\<close> is registered nowhere else, so no registration of \<open>x\<close> precedes the
  assignment. After \<open>init\<close> the transition delay of \<open>x\<close> is \<open>200ms\<close> and \<open>x\<close> is observed.
  For an element without the delay attribute no assignment is made and the transition
  delay is as before.
\<close>

theorem init_applies_delay_before_observing:
  assumes "querySelectorAll (document p) (HasAttribute ''data-scroll'') = before @ x # after"
    and "getAttribute (document p ! x) ''data-scroll-delay'' = Some ''200''"
  shows "(\<exists>pre post.
            calls (page (init opts p))
              = calls p @ pre @ [SetTransitionDelay x ''200ms'', Observe x] @ post
            \<and> Observe x \<notin> set pre \<and> Observe x \<notin> set post)
         \<and> transitionDelay (document (page (init opts p)) ! x) = ''200ms''
         \<and> x \<in> set (observed (observer (init opts p)))
         \<and> (\<forall>y < length (document p).
               getAttribute (document p ! y) ''data-scroll-delay'' = None
               \<longrightarrow> transitionDelay (document (page (init opts p)) ! y)
                     = transitionDelay (document p ! y)
                   \<and> (\<forall>v. SetTransitionDelay y v
                             \<notin> set (drop (length (calls p)) (calls (page (init opts p))))))"
proof -
  let ?els = "querySelectorAll (document p) (HasAttribute ''data-scroll'')"
  let ?pre = "concat (map (elementCalls (document p)) before)"
  let ?post = "concat (map (elementCalls (document p)) after)"
  have "x \<in> set ?els"
    by (simp add: assms(1))
  then have x: "x < length (document p)"
    by (rule querySelectorAll_bound)
  have "distinct (before @ x # after)"
    using querySelectorAll_distinct [of "document p" "HasAttribute ''data-scroll''"]
    by (simp only: assms(1))
  then have nb: "x \<notin> set before" and na: "x \<notin> set after"
    by simp_all
  have d: "delayed (document p ! x) = (document p ! x)\<lparr>transitionDelay := ''200ms''\<rparr>"
    using assms(2) by (simp add: delayed_def)
  have e: "elementCalls (document p) x = [SetTransitionDelay x ''200ms'', Observe x]"
    using assms(2) by (simp add: elementCalls_def)
  have 1: "calls (page (init opts p))
      = calls p @ ?pre @ [SetTransitionDelay x ''200ms'', Observe x] @ ?post"
    by (simp add: init_calls assms(1) e)
  have 2: "Observe x \<notin> set ?pre"
    using nb by (auto dest: elementCalls_target)
  have 3: "Observe x \<notin> set ?post"
    using na by (auto dest: elementCalls_target)
  have "fold applyDelay (before @ x # after) (document p) ! x = delayed (document p ! x)"
    using x by (subst fold_applyDelay_nth) simp_all
  then have 4: "transitionDelay (document (page (init opts p)) ! x) = ''200ms''"
    unfolding init_parts assms(1) using d by simp
  have 5: "x \<in> set (observed (observer (init opts p)))"
    unfolding init_parts assms(1) set_observed_fold_observe by simp
  have 6: "\<forall>y < length (document p).
      getAttribute (document p ! y) ''data-scroll-delay'' = None
      \<longrightarrow> transitionDelay (document (page (init opts p)) ! y) = transitionDelay (document p ! y)
          \<and> (\<forall>v. SetTransitionDelay y v
                    \<notin> set (drop (length (calls p)) (calls (page (init opts p)))))"
    by (auto simp: init_parts init_calls fold_applyDelay_nth delayed_def
        dest: elementCalls_delay)
  from 1 2 3 have "\<exists>pre post.
      calls (page (init opts p))
        = calls p @ pre @ [SetTransitionDelay x ''200ms'', Observe x] @ post
      \<and> Observe x \<notin> set pre \<and> Observe x \<notin> set post"
    by blast
  then show ?thesis using 4 5 6 by blast
qed

text \<open>Claim C9 at the example page: element 5 has the delay, the elements 0 and 2 have
  none, and the record of the page holds the four calls of \<open>init\<close> in their order.\<close>

theorem init_applies_delay_before_observing_witness:
  "querySelectorAll (document examplePage) (HasAttribute ''data-scroll'') = [0, 2] @ 5 # []
   \<and> getAttribute (document examplePage ! 5) ''data-scroll-delay'' = Some ''200''
   \<and> transitionDelay (document examplePage ! 5) = []
   \<and> calls (page (init (mergeOptions defaults) examplePage))
       = [Observe 0, Observe 2, SetTransitionDelay 5 ''200ms'', Observe 5]
   \<and> transitionDelay (document (page (init (mergeOptions defaults) examplePage)) ! 5) = ''200ms''
   \<and> 5 \<in> set (observed (observer (init (mergeOptions defaults) examplePage)))
   \<and> getAttribute (document examplePage ! 2) ''data-scroll-delay'' = None
   \<and> transitionDelay (document (page (init (mergeOptions defaults) examplePage)) ! 2)
       = transitionDelay (document examplePage ! 2)"
proof -
  have q: "querySelectorAll (document examplePage) (HasAttribute ''data-scroll'') = [0, 2] @ 5 # []"
    by (simp add: example_watched)
  have g: "getAttribute (document examplePage ! 5) ''data-scroll-delay'' = Some ''200''"
    by (simp add: getAttribute_def example_elements)
  have n: "getAttribute (document examplePage ! 2) ''data-scroll-delay'' = None"
    by (simp add: getAttribute_def example_elements)
  have z: "transitionDelay (document examplePage ! 5) = []"
    by (simp add: example_defs)
  have c: "calls (page (init (mergeOptions defaults) examplePage))
      = [Observe 0, Observe 2, SetTransitionDelay 5 ''200ms'', Observe 5]"
    by (simp add: init_calls example_watched elementCalls_def getAttribute_def example_elements
        example_calls)
  note th = init_applies_delay_before_observing [OF q g, of "mergeOptions defaults"]
  have "transitionDelay (document (page (init (mergeOptions defaults) examplePage)) ! 5) = ''200ms''"
    "5 \<in> set (observed (observer (init (mergeOptions defaults) examplePage)))"
    using th by blast+
  moreover have "\<forall>y < length (document examplePage).
      getAttribute (document examplePage ! y) ''data-scroll-delay'' = None
      \<longrightarrow> transitionDelay (document (page (init (mergeOptions defaults) examplePage)) ! y)
          = transitionDelay (document examplePage ! y)"
    using th by blast
  then have "transitionDelay (document (page (init (mergeOptions defaults) examplePage)) ! 2)
       = transitionDelay (document examplePage ! 2)"
    using n by (simp add: example_page_fields)
  ultimately show ?thesis
    using q g n z c by simp
qed

text \<open>
  Claim C6, as amended. For the triangle at position \<open>i\<close> (from zero) among all triangles,
  when the recomputation does not skip it, the vertical offset written is
  \<open>-(s * (0.3 + i * 0.1))\<close> as double arithmetic computes it, \<open>s\<close> the scroll offset: the
  literals \<open>0.3\<close> and \<open>0.1\<close> are the doubles nearest to three tenths and to one tenth, and
  the product \<open>i * 0.1\<close>, the sum and the product with \<open>s\<close> are each rounded to the nearest
  double. The rotation written with it is the one read from the computed transform.
\<close>

theorem parallax_offset_formula:
  assumes "i < length (querySelectorAll (document p) (HasClass ''triangle''))"
    and "t = querySelectorAll (document p) (HasClass ''triangle'') ! i"
    and "\<not> skipsTriangle (document p) t"
  shows "transform (document (updateParallax p) ! t)
         = TranslateYRotate
             (js_negate (js_times (pageYOffset p)
                (js_plus (roundDouble (3 / 10)) (js_times (Num (real i)) (roundDouble (1 / 10))))))
             (fst (getRotationFromMatrix (computedTransform (document p ! t))))"
  using assms updateParallax_nth [of i p]
  by (simp add: parallaxResult_def verticalOffset_def)

text \<open>Claim C6, as amended, at the fourth triangle of the example page, scrolled by 100:
  the offset written is \<open>-8444249301319681 / 2 ^ 47\<close>.\<close>

theorem parallax_offset_formula_witness:
  "3 < length (querySelectorAll (document examplePage) (HasClass ''triangle''))
   \<and> querySelectorAll (document examplePage) (HasClass ''triangle'') ! 3 = 4
   \<and> \<not> skipsTriangle (document examplePage) 4
   \<and> transform (document (updateParallax examplePage) ! 4)
       = TranslateYRotate (Num (- (8444249301319681 / 2 ^ 47))) (Num 90)"
proof -
  have "transform (document (updateParallax examplePage) ! 4)
      = TranslateYRotate
          (js_negate (js_times (pageYOffset examplePage)
             (js_plus (roundDouble (3 / 10)) (js_times (Num (real 3)) (roundDouble (1 / 10))))))
          (fst (getRotationFromMatrix (computedTransform (document examplePage ! 4))))"
    by (rule parallax_offset_formula [of 3 examplePage 4])
      (simp_all add: example_triangles example_skips)
  moreover have "js_negate (js_times (pageYOffset examplePage)
      (js_plus (roundDouble (3 / 10)) (js_times (Num (real 3)) (roundDouble (1 / 10)))))
      = Num (- (8444249301319681 / 2 ^ 47))"
    using verticalOffset_example
    by (simp only: verticalOffset_def Let_def example_page_fields)
  ultimately show ?thesis
    by (simp add: example_triangles example_skips example_rotation example_elements)
qed

text \<open>
  Claim C6 as stated promises the value of \<open>-(s * (0.3 + 0.1 * i))\<close> exactly. On the
  example page, scrolled by 100, the triangle at position 3 is not skipped and the
  offset written is \<open>-8444249301319681 / 2 ^ 47\<close>, which lies \<open>2 ^ -47\<close> below \<open>-60\<close>, the
  value of the formula.
\<close>

theorem parallax_offset_counterexample:
  "pageYOffset examplePage = Num 100
   \<and> querySelectorAll (document examplePage) (HasClass ''triangle'') ! 3 = 4
   \<and> \<not> skipsTriangle (document examplePage) 4
   \<and> transform (document (updateParallax examplePage) ! 4)
       = TranslateYRotate (Num (- (8444249301319681 / 2 ^ 47))) (Num 90)
   \<and> - (100 * (0.3 + 0.1 * real 3)) = (- 60 :: real)
   \<and> (- (8444249301319681 / 2 ^ 47) :: real) = - 60 - 1 / 2 ^ 47
   \<and> (- (8444249301319681 / 2 ^ 47) :: real) \<noteq> - (100 * (0.3 + 0.1 * real 3))"
proof -
  have "document (updateParallax examplePage) ! 4
      = parallaxResult (pageYOffset examplePage) 3 (document examplePage) 4"
    using updateParallax_nth [of 3 examplePage] by (simp add: example_triangles)
  then have "transform (document (updateParallax examplePage) ! 4)
      = TranslateYRotate (Num (- (8444249301319681 / 2 ^ 47))) (Num 90)"
    by (simp add: parallaxResult_def example_skips example_page_fields verticalOffset_example
        example_rotation example_elements)
  then show ?thesis
    by (simp add: example_triangles example_skips example_page_fields)
qed

text \<open>
  Claim C1, as amended. The recomputation skips a triangle exactly when the triangle or
  one of its ancestors is watched and the triangle itself does not carry the class
  \<open>animated\<close>; otherwise it writes the transform. The test is made at every
  recomputation on the classes of that moment, and it reads the class list of the
  triangle, not that of the watched ancestor. For a triangle that is itself watched the
  nearest watched element is the triangle, so it is skipped while it is not revealed and
  included once it is.
\<close>

theorem updateParallax_skips_by_own_class:
  assumes "i < length (querySelectorAll (document p) (HasClass ''triangle''))"
    and "t = querySelectorAll (document p) (HasClass ''triangle'') ! i"
  shows "(closest (document p) (HasAttribute ''data-scroll'') t \<noteq> None \<and> \<not> revealed (document p) t
            \<longrightarrow> document (updateParallax p) ! t = document p ! t)
         \<and> (closest (document p) (HasAttribute ''data-scroll'') t = None \<or> revealed (document p) t
            \<longrightarrow> transform (document (updateParallax p) ! t)
                = TranslateYRotate (verticalOffset (pageYOffset p) i)
                    (fst (getRotationFromMatrix (computedTransform (document p ! t)))))
         \<and> (matches (HasAttribute ''data-scroll'') (document p ! t)
            \<longrightarrow> closest (document p) (HasAttribute ''data-scroll'') t = Some t)"
proof -
  have "t \<in> set (querySelectorAll (document p) (HasClass ''triangle''))"
    using assms by simp
  then have "t < length (document p)"
    by (rule querySelectorAll_bound)
  then have "matches (HasAttribute ''data-scroll'') (document p ! t)
      \<longrightarrow> closest (document p) (HasAttribute ''data-scroll'') t = Some t"
    by (simp add: closest_self)
  then show ?thesis
    using assms updateParallax_nth [of i p]
    by (auto simp: parallaxResult_def skipsTriangle_def revealed_def)
qed

text \<open>Claim C1, as amended, at the watched triangle and at the free triangle of the
  example page.\<close>

theorem updateParallax_skips_by_own_class_witness:
  "querySelectorAll (document examplePage) (HasClass ''triangle'') = [0, 1, 3, 4]
   \<and> matches (HasAttribute ''data-scroll'') (document examplePage ! 0)
   \<and> \<not> revealed (document examplePage) 0
   \<and> closest (document examplePage) (HasAttribute ''data-scroll'') 0 = Some 0
   \<and> document (updateParallax examplePage) ! 0 = document examplePage ! 0
   \<and> closest (document examplePage) (HasAttribute ''data-scroll'') 4 = None
   \<and> transform (document (updateParallax examplePage) ! 4)
       = TranslateYRotate (Num (- (8444249301319681 / 2 ^ 47))) (Num 90)"
proof -
  have a0: "0 < length (querySelectorAll (document examplePage) (HasClass ''triangle''))"
    and b0: "0 = querySelectorAll (document examplePage) (HasClass ''triangle'') ! 0"
    and a4: "3 < length (querySelectorAll (document examplePage) (HasClass ''triangle''))"
    and b4: "4 = querySelectorAll (document examplePage) (HasClass ''triangle'') ! 3"
    by (simp_all add: example_triangles)
  note t0 = updateParallax_skips_by_own_class [of 0 examplePage 0, OF a0 b0]
  note t4 = updateParallax_skips_by_own_class [of 3 examplePage 4, OF a4 b4]
  have m: "matches (HasAttribute ''data-scroll'') (document examplePage ! 0)"
    by (simp add: example_elements matches_def getAttribute_def)
  have r: "\<not> revealed (document examplePage) 0"
    by (simp add: example_elements revealed_def)
  have c: "closest (document examplePage) (HasAttribute ''data-scroll'') 0 = Some 0"
    using t0 m by simp
  have u: "document (updateParallax examplePage) ! 0 = document examplePage ! 0"
    using t0 c r by simp
  have i: "transform (document (updateParallax examplePage) ! 4)
      = TranslateYRotate (Num (- (8444249301319681 / 2 ^ 47))) (Num 90)"
    using t4 example_closest(3)
    by (simp add: example_rotation example_elements example_page_fields verticalOffset_example)
  show ?thesis
    using m r c u i by (simp add: example_triangles example_closest)
qed

text \<open>
  Claim C1 as stated promises that a triangle inside a revealed watched element is
  included. On the example page the section (2) is watched and revealed, the triangle
  (3) lies inside it, and the recomputation leaves the triangle as it was.
\<close>

theorem nested_triangle_counterexample:
  "matches (HasAttribute ''data-scroll'') (document examplePage ! 2)
   \<and> revealed (document examplePage) 2
   \<and> parentElement (document examplePage ! 3) = Some 2
   \<and> closest (document examplePage) (HasAttribute ''data-scroll'') 3 = Some 2
   \<and> querySelectorAll (document examplePage) (HasClass ''triangle'') ! 2 = 3
   \<and> transform (document examplePage ! 3) = TransformText []
   \<and> document (updateParallax examplePage) ! 3 = document examplePage ! 3"
proof -
  have "document (updateParallax examplePage) ! 3
      = parallaxResult (pageYOffset examplePage) 2 (document examplePage) 3"
    using updateParallax_nth [of 2 examplePage] by (simp add: example_triangles)
  then have "document (updateParallax examplePage) ! 3 = document examplePage ! 3"
    by (simp add: parallaxResult_def example_skips)
  then show ?thesis
    by (simp add: example_triangles example_closest example_elements matches_def
        getAttribute_def revealed_def)
qed

subsection \<open>Scroll events\<close>

text \<open>
  While the page holds the one listener that the constructor installs, scroll events
  are coalesced: at every moment at most one recomputation is requested, and one is requested exactly
  when \<open>ticking\<close> is set; a scroll event that finds it set requests nothing, one that
  finds it clear requests one and sets it, and the next display refresh runs the
  recomputation and clears it.
\<close>

lemma single_listener_coalescing:
  assumes "scrollListeners p0 = []" and "animationFrameRequests p0 = []"
    and "p = run evs (page (construct g p0))"
  shows "length (animationFrameRequests p) \<le> 1
         \<and> (scrollListeners p = [True] \<and> animationFrameRequests p = [0]
              \<or> scrollListeners p = [False] \<and> animationFrameRequests p = [])
         \<and> (scrollListeners p = [True]
              \<longrightarrow> animationFrameRequests (scrollEvent y p) = animationFrameRequests p
                  \<and> scrollListeners (scrollEvent y p) = [True])
         \<and> (scrollListeners p = [False]
              \<longrightarrow> animationFrameRequests (scrollEvent y p) = [0]
                  \<and> scrollListeners (scrollEvent y p) = [True])
         \<and> (scrollListeners p = [True]
              \<longrightarrow> document (animationFrame p) = document (updateParallax p))
         \<and> scrollListeners (animationFrame p) = [False]
         \<and> animationFrameRequests (animationFrame p) = []"
proof -
  have "pendingInvariant p"
    unfolding assms(3) using assms(1,2) by (intro pendingInvariant_run pendingInvariant_construct)
  then show ?thesis
    using scrollEvent_single [of p True y] scrollEvent_single [of p False y]
    by (auto simp: pendingInvariant_def animationFrame_none animationFrame_one)
qed

text \<open>
  Every call of \<open>init\<close> installs one more listener with a \<open>ticking\<close> of its own, and
  \<open>refresh\<close> calls \<open>init\<close>. With two listeners whose \<open>ticking\<close> is clear, one scroll event
  requests two recomputations, and the next display refresh runs both.
\<close>

lemma scrollEvent_two_listeners:
  assumes "scrollListeners p = [False, False]" and "animationFrameRequests p = []"
  shows "animationFrameRequests (scrollEvent y p) = [0, 1]"
    and "scrollListeners (scrollEvent y p) = [True, True]"
  using assms by (simp_all add: scrollEvent_def scrollListener_def upt_rec)

lemma animationFrame_two_requests:
  assumes "animationFrameRequests p = [0, 1]"
  shows "document (animationFrame p)
         = document (updateParallax (updateParallax (p\<lparr>animationFrameRequests := []\<rparr>)))"
  using assms by (simp add: animationFrame_def frameCallback_def Let_def updateParallax_listeners)

text \<open>
  Claim C8 does not hold of the code. The animator is constructed on the example page
  and \<open>refresh\<close> is called once. The constructor left one listener; \<open>refresh\<close> leaves two.
  One scroll event, arriving when no recomputation is pending, then requests two
  recomputations for the same display refresh (after the constructor alone it requests
  one), and the display refresh runs \<open>updateParallax\<close> twice.
\<close>

theorem refresh_doubles_recomputation:
  "scrollListeners (page (construct defaults examplePage)) = [False]
   \<and> animationFrameRequests (scrollEvent (Num 10) (page (construct defaults examplePage))) = [0]
   \<and> scrollListeners (page (refresh (construct defaults examplePage))) = [False, False]
   \<and> animationFrameRequests (page (refresh (construct defaults examplePage))) = []
   \<and> animationFrameRequests
        (scrollEvent (Num 10) (page (refresh (construct defaults examplePage)))) = [0, 1]
   \<and> length (animationFrameRequests
        (run [Scroll (Num 10)] (page (refresh (construct defaults examplePage))))) = 2
   \<and> document (animationFrame
        (scrollEvent (Num 10) (page (refresh (construct defaults examplePage)))))
       = document (updateParallax (updateParallax
           ((scrollEvent (Num 10) (page (refresh (construct defaults examplePage))))
              \<lparr>animationFrameRequests := []\<rparr>)))"
proof -
  let ?s = "construct defaults examplePage"
  have a: "scrollListeners (page ?s) = [False]" and b: "animationFrameRequests (page ?s) = []"
    by (simp_all add: example_constructed)
  have c: "animationFrameRequests (scrollEvent (Num 10) (page ?s)) = [0]"
    using a b by (simp add: scrollEvent_def scrollListener_def)
  have d: "scrollListeners (page (refresh ?s)) = [False, False]"
    and e: "animationFrameRequests (page (refresh ?s)) = []"
    using a b by (simp_all add: refresh_parts)
  note f = scrollEvent_two_listeners [OF d e, of "Num 10"]
  have g: "length (animationFrameRequests (run [Scroll (Num 10)] (page (refresh ?s)))) = 2"
    using f(1) by (simp add: run_def)
  note h = animationFrame_two_requests [OF f(1)]
  show ?thesis
    using a c d e f(1) g h by simp
qed

end
